theory Spec2Isabelle
  imports Complex_Main "HOL-Library.Multiset"
begin

section \<open>Tensors, errors and the helpers of \<open>src/algorithms.py\<close>\<close>

text \<open>
  One-dimensional integer tensors (label tensors, index tensors) are lists; a batch of inputs
  is a list of rows of an arbitrary type. Every \<open>raise\<close> of the source and every
  exception of a library call on the paths below is a value of \<open>py_error\<close>; a
  function that can raise returns \<open>py_error + 'a\<close>, with \<open>Inl\<close> the error.
\<close>

datatype py_error =
  KeyError | RuntimeError | ZeroDivisionError | ValueError | IndexError
  | TypeError | NameError | UnboundLocalError | NotImplementedError

text \<open>\<open>torch.unique(t)\<close>: the distinct values of the tensor, in ascending order.\<close>

definition unique :: "int list \<Rightarrow> int list" where
  "unique t = sort (remdups t)"

text \<open>\<open>torch.where(t == c)[0]\<close>: the positions holding \<open>c\<close>, in ascending order.\<close>

definition where_eq :: "int list \<Rightarrow> int \<Rightarrow> nat list" where
  "where_eq t c = filter (\<lambda>i. t ! i = c) [0..<length t]"

text \<open>\<open>t[idx]\<close> with an index tensor: the rows at the given positions, in that order.\<close>

definition gather :: "'a list \<Rightarrow> nat list \<Rightarrow> 'a list" where
  "gather t idx = map (\<lambda>i. t ! i) idx"

text \<open>\<open>t[a:b]\<close> for non-negative bounds; Python clamps the bounds to the length.\<close>

definition slice :: "'a list \<Rightarrow> nat \<Rightarrow> nat \<Rightarrow> 'a list" where
  "slice t a b = take (b - a) (drop a t)"

text \<open>\<open>t[-k:]\<close> for \<open>k > 0\<close>: the last \<open>k\<close> elements, all of them when \<open>k\<close>
  exceeds the length.\<close>

definition last_n :: "'a list \<Rightarrow> nat \<Rightarrow> 'a list" where
  "last_n t k = drop (length t - k) t"

text \<open>\<open>t[::2]\<close> and \<open>t[1::2]\<close>.\<close>

fun evens :: "'a list \<Rightarrow> 'a list" where
  "evens [] = []"
| "evens [x] = [x]"
| "evens (x # y # r) = x # evens r"

fun odds :: "'a list \<Rightarrow> 'a list" where
  "odds [] = []"
| "odds [x] = []"
| "odds (x # y # r) = y # odds r"

text \<open>\<open>t[::k]\<close>: every \<open>k\<close>-th element from the first; a zero step raises ValueError.\<close>

definition stride :: "'a list \<Rightarrow> nat \<Rightarrow> py_error + 'a list" where
  "stride t k =
     (if k = 0 then Inl ValueError
      else Inr (map (\<lambda>i. t ! i) (filter (\<lambda>i. i mod k = 0) [0..<length t])))"

text \<open>\<open>t.max()\<close>: raises on a tensor without elements.\<close>

definition tmax :: "int list \<Rightarrow> py_error + int" where
  "tmax t = (case t of [] \<Rightarrow> Inl RuntimeError | x # r \<Rightarrow> Inr (fold max r x))"

text \<open>\<open>torch.cat(ts)\<close>: raises on an empty list of tensors; tensors without elements
  are accepted.\<close>

definition cat :: "'a list list \<Rightarrow> py_error + 'a list" where
  "cat ts = (if ts = [] then Inl RuntimeError else Inr (concat ts))"

text \<open>Sequencing of steps that can raise: the first error ends the computation.\<close>

fun bind_err :: "py_error + 'a \<Rightarrow> ('a \<Rightarrow> py_error + 'b) \<Rightarrow> py_error + 'b" where
  "bind_err (Inl e) f = Inl e"
| "bind_err (Inr x) f = f x"

subsection \<open>\<open>return_random_labels\<close>\<close>

text \<open>
  The permutation drawn by \<open>torch.randperm(n)\<close> is the parameter \<open>perm\<close>. The converter
  dictionary has the keys \<open>0 .. n - 1\<close> (positions in \<open>random_labels\<close>), and the loop looks
  every label value up in it and overwrites the tensor in place; a missing key raises KeyError.
\<close>

fun relabel :: "(int \<rightharpoonup> int) \<Rightarrow> nat list \<Rightarrow> int list \<Rightarrow> py_error + int list" where
  "relabel converter [] batch_labels = Inr batch_labels"
| "relabel converter (i # rest) batch_labels =
     (case converter (batch_labels ! i) of
        None \<Rightarrow> Inl KeyError
      | Some v \<Rightarrow> relabel converter rest (batch_labels[i := v]))"

definition return_random_labels :: "nat list \<Rightarrow> int list \<Rightarrow> py_error + int list" where
  "return_random_labels perm batch_labels =
     (let unique_labels = unique batch_labels;
          random_labels = gather unique_labels perm;
          converter = map_of (zip (map int [0..<length random_labels]) random_labels)
      in relabel converter [0..<length batch_labels] batch_labels)"

subsection \<open>\<open>return_indexes\<close>\<close>

text \<open>
  \<open>torch.tensor(batch_indexes)\<close> is a tensor of integers when the list has elements. Of the
  empty list it is a tensor of the default floating-point type, and indexing with it raises
  IndexError. \<open>index_rows t idx\<close> is \<open>t[idx]\<close>; an index outside the rows of \<open>t\<close> raises
  IndexError as well.
\<close>

datatype index_tensor = LongTensor "nat list" | EmptyFloatTensor

definition tensor_of_indexes :: "nat list \<Rightarrow> index_tensor" where
  "tensor_of_indexes batch_indexes =
     (if batch_indexes = [] then EmptyFloatTensor else LongTensor batch_indexes)"

definition index_rows :: "'a list \<Rightarrow> index_tensor \<Rightarrow> py_error + 'a list" where
  "index_rows t idx =
     (case idx of
        EmptyFloatTensor \<Rightarrow> Inl IndexError
      | LongTensor indexes \<Rightarrow>
          if \<forall>i\<in>set indexes. i < length t then Inr (gather t indexes) else Inl IndexError)"

definition return_indexes :: "int list \<Rightarrow> int list \<Rightarrow> py_error + index_tensor" where
  "return_indexes batch_labels classes =
     (case cat (map (\<lambda>c. where_eq batch_labels c) classes) of
        Inl e \<Rightarrow> Inl e
      | Inr batch_indexes \<Rightarrow>
          Inr (tensor_of_indexes (evens batch_indexes @ odds batch_indexes)))"

subsection \<open>\<open>GradientLearningBase.split_batch\<close>\<close>

text \<open>
  \<open>t.chunk(2, dim=0)\<close> cuts after \<open>ceil(N / 2)\<close> rows. A tensor of one row gives a single
  chunk, and unpacking it into two names raises ValueError; a tensor without rows gives two
  empty chunks.
\<close>

definition chunk2 :: "'a list \<Rightarrow> py_error + ('a list \<times> 'a list)" where
  "chunk2 t =
     (if length t = 1 then Inl ValueError
      else Inr (take ((length t + 1) div 2) t, drop ((length t + 1) div 2) t))"

definition split_batch ::
  "'x list \<Rightarrow> int list \<Rightarrow> py_error + ('x list \<times> int list \<times> 'x list \<times> int list)" where
  "split_batch input labels =
     (case chunk2 input of
        Inl e \<Rightarrow> Inl e
      | Inr (support_input, query_input) \<Rightarrow>
          (case chunk2 labels of
             Inl e \<Rightarrow> Inl e
           | Inr (support_labels, query_labels) \<Rightarrow>
               Inr (support_input, support_labels, query_input, query_labels)))"

subsection \<open>\<open>FSCL.return_label_batches\<close> and \<open>OML.return_label_batches\<close>\<close>

text \<open>
  The two methods have the same body. \<open>n_classes_start\<close> and \<open>n_class_additions\<close> are
  the configured counts (natural numbers); a zero \<open>n_class_additions\<close> raises in the floor
  division. \<open>total_missing\<close> is a difference of label values, used as a count of elements.
\<close>

definition return_label_batches :: "nat \<Rightarrow> nat \<Rightarrow> int list \<Rightarrow> py_error + int list list" where
  "return_label_batches n_classes_start n_class_additions batch_labels =
     (let unique_classes = unique batch_labels;
          classes0 = [take n_classes_start unique_classes]
      in if n_class_additions = 0 then Inl ZeroDivisionError
         else
           let total_additions =
                 (if int (length unique_classes) - int n_classes_start \<ge> 1
                  then (length unique_classes - n_classes_start) div n_class_additions
                  else 1);
               classes = classes0 @
                 map (\<lambda>i. slice unique_classes
                            (n_classes_start + n_class_additions * i)
                            (n_classes_start + n_class_additions * (i + 1)))
                     [0..<total_additions]
           in case tmax (concat classes) of
                Inl e \<Rightarrow> Inl e
              | Inr covered \<Rightarrow>
                  (case tmax batch_labels of
                     Inl e \<Rightarrow> Inl e
                   | Inr highest \<Rightarrow>
                       if covered < highest
                       then let total_missing = highest - covered
                            in Inr (butlast classes @
                                    [last classes @ last_n unique_classes (nat total_missing)])
                       else Inr classes))"

section \<open>The abstract base class\<close>

text \<open>
  The only field of \<open>GradientLearningBase\<close> that a step writes is the mode flag
  \<open>training\<close>. A Python call binds its arguments to the parameters of the callee before
  the body runs: \<open>meta_learn\<close> of the base class is declared with \<open>self\<close> alone, so a
  call that passes anything more raises TypeError, and the body is reached only by a call
  without arguments. The argument list of the call is the parameter \<open>args\<close>.
  \<open>training_step\<close> and \<open>validation_step\<close> are modelled up to their call of
  \<open>meta_learn\<close>: on the base class the call never returns, so the logging of the metrics
  and the return of \<open>query_error\<close> are not reached. \<open>torch.set_grad_enabled(True)\<close>
  in \<open>validation_step\<close> sets a global switch of the library and is left out.
\<close>

record base_state =
  training :: bool

definition GradientLearningBase_meta_learn :: "'b list \<Rightarrow> py_error + 'r" where
  "GradientLearningBase_meta_learn args =
     (if args \<noteq> [] then Inl TypeError else Inl NotImplementedError)"

definition GradientLearningBase_training_step ::
  "base_state \<Rightarrow> 'b \<Rightarrow> nat \<Rightarrow> base_state \<times> (py_error + 'r)" where
  "GradientLearningBase_training_step self batch batch_idx =
     (let self = self\<lparr>training := True\<rparr>
      in (self, GradientLearningBase_meta_learn [batch]))"

definition GradientLearningBase_validation_step ::
  "base_state \<Rightarrow> 'b \<Rightarrow> nat \<Rightarrow> base_state \<times> (py_error + 'r)" where
  "GradientLearningBase_validation_step self batch batch_idx =
     (let self = self\<lparr>training := False\<rparr>
      in (self, GradientLearningBase_meta_learn [batch]))"

section \<open>The collaborators of the algorithm variants\<close>

text \<open>
  The model, the loss function, the optimiser and the accuracy computation
  (\<open>calculate_accuracy\<close>: softmax and arg-max over floating-point logits) are numerical
  code; the variants only call them. They are the fields of \<open>collaborators\<close>, over
  arbitrary types of parameters \<open>'w\<close>, model outputs \<open>'o\<close>, losses \<open>'l\<close>, accuracies
  \<open>'m\<close> and optimiser states \<open>'p\<close>:
  \<^item> \<open>forward w x args\<close> is the call of the model with parameters \<open>w\<close> on the rows \<open>x\<close>;
    \<open>args\<close> holds the further arguments of the call: none (\<open>model(x)\<close>), the head count
    (\<open>learner(x, total_classes_present)\<close>), or the head count and the flag \<open>inner_loop\<close>;
  \<^item> \<open>loss_func out labels\<close> is \<open>self.loss_func(output)\<close> after
    \<open>output['labels'] = labels\<close>, and \<open>calculate_accuracy out labels\<close> likewise;
  \<^item> \<open>adapt w loss\<close> is \<open>learner.adapt(loss)\<close>, one gradient step on a clone;
  \<^item> \<open>opt_step p w loss\<close> is \<open>opt.zero_grad(); loss.backward(); opt.step()\<close> on the
    live model, with the optimiser's own state \<open>p\<close>;
  \<^item> \<open>set_mode b w\<close> is \<open>learner.train()\<close> (\<open>b\<close> true) or \<open>learner.eval()\<close>.
  The calls that run user code (\<open>forward\<close>, \<open>loss_func\<close>, \<open>calculate_accuracy\<close>) can
  raise.
\<close>

datatype call_args = Plain | Heads nat | HeadsInner nat bool

datatype ('l, 'm) metric = Loss 'l | Accuracy 'm

datatype log_key =
  step_inner_accuracy nat | quick_update_inner_accuracy | query_error | query_accuracy

record ('x, 'w, 'o, 'l, 'm, 'p) collaborators =
  forward :: "'w \<Rightarrow> 'x list \<Rightarrow> call_args \<Rightarrow> py_error + 'o"
  loss_func :: "'o \<Rightarrow> int list \<Rightarrow> py_error + 'l"
  calculate_accuracy :: "'o \<Rightarrow> int list \<Rightarrow> py_error + 'm"
  adapt :: "'w \<Rightarrow> 'l \<Rightarrow> 'w"
  opt_step :: "'p \<Rightarrow> 'w \<Rightarrow> 'l \<Rightarrow> 'p \<times> 'w"
  set_mode :: "bool \<Rightarrow> 'w \<Rightarrow> 'w"

text \<open>
  The fast-training loop of the clone-based variants,
  \<open>for step in range(n): output = learner(x, ...); output['labels'] = y;
  support_error = self.loss_func(output); learner.adapt(support_error)\<close>.
  The variable \<open>output\<close> belongs to the enclosing function: it keeps its previous binding
  when the loop runs zero times, and none if it was never bound.
\<close>

fun fast_train ::
  "('x, 'w, 'o, 'l, 'm, 'p) collaborators \<Rightarrow> nat \<Rightarrow> 'x list \<Rightarrow> int list \<Rightarrow> call_args
   \<Rightarrow> 'w \<times> ('o \<times> int list) option \<Rightarrow> py_error + ('w \<times> ('o \<times> int list) option)" where
  "fast_train C 0 x y args st = Inr st"
| "fast_train C (Suc n) x y args (learner, output) =
     bind_err (forward C learner x args) (\<lambda>out.
     bind_err (loss_func C out y) (\<lambda>support_error.
       fast_train C n x y args (adapt C learner support_error, Some (out, y))))"

text \<open>\<open>self.calculate_accuracy(output)\<close> after such a loop.\<close>

definition accuracy_of ::
  "('x, 'w, 'o, 'l, 'm, 'p) collaborators \<Rightarrow> ('o \<times> int list) option \<Rightarrow> py_error + 'm" where
  "accuracy_of C output =
     (case output of
        None \<Rightarrow> Inl UnboundLocalError
      | Some (out, y) \<Rightarrow> calculate_accuracy C out y)"

text \<open>The evaluation on the query rows that ends \<open>VanillaMAML.meta_learn\<close> and
  \<open>Reptile.meta_learn\<close>.\<close>

definition query_metrics ::
  "('x, 'w, 'o, 'l, 'm, 'p) collaborators \<Rightarrow> 'w \<Rightarrow> 'x list \<Rightarrow> int list
   \<Rightarrow> py_error + (log_key \<times> ('l, 'm) metric) list" where
  "query_metrics C w query_input query_labels =
     bind_err (forward C w query_input Plain) (\<lambda>out.
     bind_err (loss_func C out query_labels) (\<lambda>query_error'.
     bind_err (calculate_accuracy C out query_labels) (\<lambda>query_accuracy'.
       Inr [(query_error, Loss query_error'), (query_accuracy, Accuracy query_accuracy')])))"

section \<open>\<open>VanillaMAML\<close>\<close>

text \<open>
  The names bound at module level in \<open>src/algorithms.py\<close>: the five imports, the two
  functions and the five classes. A name that is neither local, nor bound here, nor a builtin
  raises NameError when it is evaluated.
\<close>

definition module_globals :: "string list" where
  "module_globals =
     [''deepcopy'', ''MAML'', ''pl'', ''torch'', ''F'',
      ''return_random_labels'', ''return_indexes'',
      ''GradientLearningBase'', ''VanillaMAML'', ''Reptile'', ''FSCL'', ''OML'']"

definition lookup_global :: "string \<Rightarrow> py_error + unit" where
  "lookup_global name = (if name \<in> set module_globals then Inr () else Inl NameError)"

record ('x, 'w) vanilla_maml =
  vm_model :: 'w
  vm_training :: bool
  vm_train_update_steps :: nat
  vm_augmentation :: "('x list \<Rightarrow> 'x list) option"

text \<open>
  \<open>VanillaMAML.__init__\<close>: after the initialiser of the base class, the right-hand side
  \<open>l2l.algorithms.MAML(model, ...)\<close> evaluates the name \<open>l2l\<close> first.
\<close>

definition VanillaMAML_init ::
  "'w \<Rightarrow> nat \<Rightarrow> ('x list \<Rightarrow> 'x list) option \<Rightarrow> py_error + ('x, 'w) vanilla_maml" where
  "VanillaMAML_init model train_update_steps augmentation =
     bind_err (lookup_global ''l2l'') (\<lambda>_.
       Inr \<lparr>vm_model = model, vm_training = True,
            vm_train_update_steps = train_update_steps, vm_augmentation = augmentation\<rparr>)"


section \<open>\<open>Reptile\<close>\<close>

text \<open>
  The state dictionary of the live model is an ordered list of named one-dimensional
  tensors, and tensor arithmetic is arithmetic on the reals (rounding is not modelled).
  \<open>Reptile.meta_learn\<close> trains \<open>self.model\<close> itself, so every step of the inner loop
  changes the instance, and an error leaves the instance as it is at that point: all
  functions of this section return the instance (or the part of it they change) together
  with the outcome.
\<close>

type_synonym state_dict = "(string \<times> real list) list"

record ('x, 'p) reptile =
  rp_model :: state_dict
  rp_optimizer :: 'p
  rp_training :: bool
  rp_train_update_steps :: nat
  rp_augmentation :: "('x list \<Rightarrow> 'x list) option"
  rp_outer_steps :: nat
  rp_initial_lr :: real
  rp_max_steps :: int

fun reptile_fast_train ::
  "('x, state_dict, 'o, 'l, 'm, 'p) collaborators \<Rightarrow> nat \<Rightarrow> 'x list \<Rightarrow> int list
   \<Rightarrow> 'p \<times> state_dict \<Rightarrow> ('p \<times> state_dict) \<times> (py_error + unit)" where
  "reptile_fast_train C 0 x y st = (st, Inr ())"
| "reptile_fast_train C (Suc n) x y (opt, w) =
     (case forward C w x Plain of
        Inl e \<Rightarrow> ((opt, w), Inl e)
      | Inr out \<Rightarrow>
          (case loss_func C out y of
             Inl e \<Rightarrow> ((opt, w), Inl e)
           | Inr support_error \<Rightarrow> reptile_fast_train C n x y (opt_step C opt w support_error)))"

text \<open>
  The dictionary comprehension
  \<open>{name : old_weights[name] + (new_weights[name] - old_weights[name]) * current_lr
    for name in old_weights}\<close>.
  A name missing from \<open>new_weights\<close> raises KeyError and tensors of different sizes
  raise RuntimeError; neither happens when the optimiser keeps the names and shapes.
\<close>

fun interpolate :: "state_dict \<Rightarrow> state_dict \<Rightarrow> real \<Rightarrow> py_error + state_dict" where
  "interpolate [] new_weights current_lr = Inr []"
| "interpolate ((name, old) # rest) new_weights current_lr =
     (case map_of new_weights name of
        None \<Rightarrow> Inl KeyError
      | Some new \<Rightarrow>
          if length new \<noteq> length old then Inl RuntimeError
          else bind_err (interpolate rest new_weights current_lr) (\<lambda>rest'.
                 Inr ((name, map2 (\<lambda>a b. a + (b - a) * current_lr) old new) # rest')))"

text \<open>
  The branch \<open>if self.training: ... else: ...\<close> that ends \<open>Reptile.meta_learn\<close>.
  \<open>self.outer_steps / self.trainer.max_steps\<close> divides two Python integers and raises
  on a zero divisor. \<open>self.log('learning_rate', current_lr, ...)\<close> hands the rate to the
  logger of the trainer and is left out.
\<close>

definition Reptile_outer_update ::
  "('x, 'p) reptile \<Rightarrow> state_dict \<Rightarrow> ('x, 'p) reptile \<times> (py_error + unit)" where
  "Reptile_outer_update self old_weights =
     (if rp_training self then
        (let new_weights = rp_model self
         in if rp_max_steps self = 0 then (self, Inl ZeroDivisionError)
            else
              (let current_lr = rp_initial_lr self *
                     (1 - real (rp_outer_steps self) / real_of_int (rp_max_steps self))
               in (case interpolate old_weights new_weights current_lr of
                     Inl e \<Rightarrow> (self, Inl e)
                   | Inr loaded \<Rightarrow>
                       (self\<lparr>rp_model := loaded,
                             rp_outer_steps := rp_outer_steps self + 1\<rparr>, Inr ()))))
      else (self\<lparr>rp_model := old_weights\<rparr>, Inr ()))"

definition Reptile_meta_learn ::
  "('x, state_dict, 'o, 'l, 'm, 'p) collaborators \<Rightarrow> ('x, 'p) reptile \<Rightarrow> ('x \<times> int) list
   \<Rightarrow> ('x, 'p) reptile \<times> (py_error + (log_key \<times> ('l, 'm) metric) list)" where
  "Reptile_meta_learn C self batch =
     (case split_batch (map fst batch) (map snd batch) of
        Inl e \<Rightarrow> (self, Inl e)
      | Inr (support_input, support_labels, query_input, query_labels) \<Rightarrow>
          (let old_weights = rp_model self;
               x = (case rp_augmentation self of
                      Some augmentation \<Rightarrow>
                        if rp_training self then augmentation support_input else support_input
                    | None \<Rightarrow> support_input);
               trained = reptile_fast_train C (rp_train_update_steps self) x support_labels
                           (rp_optimizer self, rp_model self);
               self = self\<lparr>rp_model := snd (fst trained), rp_optimizer := fst (fst trained)\<rparr>
           in (case snd trained of
                 Inl e \<Rightarrow> (self, Inl e)
               | Inr _ \<Rightarrow>
                   (case query_metrics C (rp_model self) query_input query_labels of
                      Inl e \<Rightarrow> (self, Inl e)
                    | Inr metrics \<Rightarrow>
                        (case Reptile_outer_update self old_weights of
                           (self, Inl e) \<Rightarrow> (self, Inl e)
                         | (self, Inr _) \<Rightarrow> (self, Inr metrics))))))"

section \<open>\<open>FSCL\<close> and \<open>OML\<close>\<close>

text \<open>
  One record holds the fields of both classes; \<open>OML\<close> has no \<open>initial_training_steps\<close>
  and no \<open>quick_adapt\<close>, and \<open>OML_meta_learn\<close> reads neither.
\<close>

record 'w cl_instance =
  cl_model :: 'w
  n_classes_start :: nat
  n_class_additions :: nat
  training_steps :: nat
  initial_training_steps :: nat
  quick_adapt :: bool
  k_shot :: nat

text \<open>
  The local variables of \<open>meta_learn\<close> that the loop over the class batches updates.
  \<open>heads\<close> is not a variable of the source: it records the value of
  \<open>total_classes_present\<close> at the end of the processing of each class batch, for the
  statement of properties.
\<close>

record ('x, 'w, 'o, 'l, 'm) cl_locals =
  learner :: 'w
  last_output :: "('o \<times> int list) option"
  total_classes_present :: nat
  query_inputs :: "'x list list"
  query_labels :: "int list list"
  quick_update_inputs :: "'x list list"
  quick_update_labels :: "int list list"
  logging :: "(log_key \<times> ('l, 'm) metric) list"
  heads :: "nat list"

text \<open>
  What \<open>meta_learn\<close> returns is \<open>logged\<close>; the other fields record the last call of the
  model: the rows and labels of the final query evaluation, and the arguments of the call.
\<close>

record ('x, 'l, 'm) report =
  logged :: "(log_key \<times> ('l, 'm) metric) list"
  head_trace :: "nat list"
  eval_inputs :: "'x list"
  eval_labels :: "int list"
  eval_args :: call_args

text \<open>
  The lines that open the processing of a class batch: \<open>return_indexes\<close>, the indexing
  of \<open>_inputs\<close> and of \<open>labels\<close> with its result, \<open>split_batch\<close>.
\<close>

definition iteration_split ::
  "'x list \<Rightarrow> int list \<Rightarrow> int list
   \<Rightarrow> py_error + ('x list \<times> int list \<times> 'x list \<times> int list)" where
  "iteration_split inputs labels class_batch =
     bind_err (return_indexes labels class_batch) (\<lambda>iteration_indexes.
     bind_err (index_rows inputs iteration_indexes) (\<lambda>iteration_inputs.
     bind_err (index_rows labels iteration_indexes) (\<lambda>iteration_labels.
       split_batch iteration_inputs iteration_labels)))"

text \<open>
  \<open>testing_indexes = [torch.where(query_labels==c)[0][:5] for c in torch.unique(query_labels)]\<close>
  and its concatenation.
\<close>

definition testing_indexes :: "int list \<Rightarrow> py_error + nat list" where
  "testing_indexes query_labels' =
     cat (map (\<lambda>c. take 5 (where_eq query_labels' c)) (unique query_labels'))"

text \<open>The final evaluation, from \<open>learner.eval()\<close> to the return.\<close>

definition final_evaluation ::
  "('x, 'w, 'o, 'l, 'm, 'p) collaborators \<Rightarrow> ('x, 'w, 'o, 'l, 'm) cl_locals \<Rightarrow> call_args
   \<Rightarrow> py_error + ('x, 'l, 'm) report" where
  "final_evaluation C st args =
     (let learner' = set_mode C False (learner st)
      in bind_err (cat (query_inputs st)) (\<lambda>all_inputs.
         bind_err (cat (query_labels st)) (\<lambda>all_labels.
         bind_err (testing_indexes all_labels) (\<lambda>idx.
           let test_inputs = gather all_inputs idx;
               test_labels = gather all_labels idx
           in bind_err (forward C learner' test_inputs args) (\<lambda>out.
              bind_err (loss_func C out test_labels) (\<lambda>query_error'.
              bind_err (calculate_accuracy C out test_labels) (\<lambda>query_accuracy'.
                Inr \<lparr>logged = logging st @
                              [(query_error, Loss query_error'),
                               (query_accuracy, Accuracy query_accuracy')],
                     head_trace = heads st,
                     eval_inputs = test_inputs,
                     eval_labels = test_labels,
                     eval_args = args\<rparr>)))))))"

subsection \<open>\<open>FSCL.meta_learn\<close>\<close>

text \<open>The loop \<open>for i, class_batch in enumerate(class_batches[1:])\<close>.\<close>

fun FSCL_inner_loops ::
  "('x, 'w, 'o, 'l, 'm, 'p) collaborators \<Rightarrow> 'w cl_instance \<Rightarrow> 'x list \<Rightarrow> int list \<Rightarrow> nat
   \<Rightarrow> int list list \<Rightarrow> ('x, 'w, 'o, 'l, 'm) cl_locals
   \<Rightarrow> py_error + ('x, 'w, 'o, 'l, 'm) cl_locals" where
  "FSCL_inner_loops C self inputs labels i [] st = Inr st"
| "FSCL_inner_loops C self inputs labels i (class_batch # rest) st =
     bind_err (iteration_split inputs labels class_batch)
       (\<lambda>(support_input, support_labels, query_input, query_labels').
     bind_err (stride support_input (k_shot self)) (\<lambda>quick_inputs.
     bind_err (stride support_labels (k_shot self)) (\<lambda>quick_labels.
       let present = total_classes_present st + length class_batch
       in bind_err (fast_train C (training_steps self) support_input support_labels
                      (Heads present) (learner st, last_output st))
            (\<lambda>(learner', output').
          bind_err (accuracy_of C output') (\<lambda>accuracy.
            FSCL_inner_loops C self inputs labels (i + 1) rest
              (st\<lparr>learner := learner',
                  last_output := output',
                  total_classes_present := present,
                  query_inputs := query_inputs st @ [query_input],
                  query_labels := query_labels st @ [query_labels'],
                  quick_update_inputs := quick_update_inputs st @ [quick_inputs],
                  quick_update_labels := quick_update_labels st @ [quick_labels],
                  logging := logging st @ [(step_inner_accuracy (i + 1), Accuracy accuracy)],
                  heads := heads st @ [present]\<rparr>))))))"

text \<open>The block \<open>if self.quick_adapt: ...\<close>.\<close>

definition FSCL_quick_adapt ::
  "('x, 'w, 'o, 'l, 'm, 'p) collaborators \<Rightarrow> 'w cl_instance \<Rightarrow> ('x, 'w, 'o, 'l, 'm) cl_locals
   \<Rightarrow> py_error + ('x, 'w, 'o, 'l, 'm) cl_locals" where
  "FSCL_quick_adapt C self st =
     (if quick_adapt self then
        bind_err (cat (quick_update_inputs st)) (\<lambda>quick_inputs.
        bind_err (cat (quick_update_labels st)) (\<lambda>quick_labels.
        bind_err (forward C (learner st) quick_inputs (Heads (total_classes_present st))) (\<lambda>out.
        bind_err (loss_func C out quick_labels) (\<lambda>quick_update_error.
        bind_err (calculate_accuracy C out quick_labels) (\<lambda>quick_update_accuracy.
          Inr (st\<lparr>learner := adapt C (learner st) quick_update_error,
                   last_output := Some (out, quick_labels),
                   logging := logging st @
                     [(quick_update_inner_accuracy, Accuracy quick_update_accuracy)]\<rparr>))))))
      else Inr st)"

text \<open>
  The episode of \<open>FSCL.meta_learn\<close>: \<open>perm\<close> is the permutation drawn inside
  \<open>return_random_labels\<close>, \<open>inputs\<close> and \<open>labels\<close> are the two tensors of the batch.
\<close>

definition FSCL_episode ::
  "('x, 'w, 'o, 'l, 'm, 'p) collaborators \<Rightarrow> nat list \<Rightarrow> 'w cl_instance \<Rightarrow> 'x list \<Rightarrow> int list
   \<Rightarrow> py_error + ('x, 'l, 'm) report" where
  "FSCL_episode C perm self inputs labels0 =
     bind_err (return_random_labels perm labels0) (\<lambda>labels.
       let learner0 = set_mode C True (cl_model self)
       in bind_err (return_label_batches (n_classes_start self) (n_class_additions self) labels)
            (\<lambda>class_batches.
          case class_batches of
            [] \<Rightarrow> Inl IndexError
          | first # others \<Rightarrow>
              bind_err (iteration_split inputs labels first)
                (\<lambda>(support_input, support_labels, query_input, query_labels').
              bind_err (stride support_input (k_shot self)) (\<lambda>quick_inputs.
              bind_err (stride support_labels (k_shot self)) (\<lambda>quick_labels.
                let present = length first
                in bind_err (fast_train C (initial_training_steps self) support_input
                               support_labels (Heads present) (learner0, None))
                     (\<lambda>(learner', output').
                   bind_err (accuracy_of C output') (\<lambda>accuracy.
                   bind_err (FSCL_inner_loops C self inputs labels 0 others
                               \<lparr>learner = learner',
                                last_output = output',
                                total_classes_present = present,
                                query_inputs = [query_input],
                                query_labels = [query_labels'],
                                quick_update_inputs = [quick_inputs],
                                quick_update_labels = [quick_labels],
                                logging = [(step_inner_accuracy 0, Accuracy accuracy)],
                                heads = [present]\<rparr>) (\<lambda>st.
                   bind_err (FSCL_quick_adapt C self st) (\<lambda>st.
                     final_evaluation C st (Heads (total_classes_present st)))))))))))"

text \<open>
  \<open>FSCL.meta_learn\<close>: the instance after the call, and the outcome. The method adapts
  the clone only: no statement assigns to \<open>self.model\<close>, to its parameters or to another
  field.
\<close>

definition FSCL_meta_learn ::
  "('x, 'w, 'o, 'l, 'm, 'p) collaborators \<Rightarrow> nat list \<Rightarrow> 'w cl_instance \<Rightarrow> ('x \<times> int) list
   \<Rightarrow> 'w cl_instance \<times> (py_error + ('x, 'l, 'm) report)" where
  "FSCL_meta_learn C perm self batch =
     (self, FSCL_episode C perm self (map fst batch) (map snd batch))"

subsection \<open>\<open>OML.meta_learn\<close>\<close>

text \<open>The loop \<open>for i, class_batch in enumerate(class_batches)\<close>.\<close>

fun OML_inner_loops ::
  "('x, 'w, 'o, 'l, 'm, 'p) collaborators \<Rightarrow> 'w cl_instance \<Rightarrow> 'x list \<Rightarrow> int list \<Rightarrow> nat
   \<Rightarrow> int list list \<Rightarrow> ('x, 'w, 'o, 'l, 'm) cl_locals
   \<Rightarrow> py_error + ('x, 'w, 'o, 'l, 'm) cl_locals" where
  "OML_inner_loops C self inputs labels i [] st = Inr st"
| "OML_inner_loops C self inputs labels i (class_batch # rest) st =
     (let present = total_classes_present st + length class_batch
      in bind_err (iteration_split inputs labels class_batch)
           (\<lambda>(support_input, support_labels, query_input, query_labels').
         bind_err (fast_train C (training_steps self) support_input support_labels
                     (HeadsInner present True) (learner st, last_output st))
           (\<lambda>(learner', output').
         bind_err (accuracy_of C output') (\<lambda>accuracy.
           OML_inner_loops C self inputs labels (i + 1) rest
             (st\<lparr>learner := learner',
                 last_output := output',
                 total_classes_present := present,
                 query_inputs := query_inputs st @ [query_input],
                 query_labels := query_labels st @ [query_labels'],
                 logging := logging st @ [(step_inner_accuracy (i + 1), Accuracy accuracy)],
                 heads := heads st @ [present]\<rparr>)))))"

definition OML_episode ::
  "('x, 'w, 'o, 'l, 'm, 'p) collaborators \<Rightarrow> nat list \<Rightarrow> 'w cl_instance \<Rightarrow> 'x list \<Rightarrow> int list
   \<Rightarrow> py_error + ('x, 'l, 'm) report" where
  "OML_episode C perm self inputs labels0 =
     bind_err (return_random_labels perm labels0) (\<lambda>labels.
       let learner0 = set_mode C True (cl_model self)
       in bind_err (return_label_batches (n_classes_start self) (n_class_additions self) labels)
            (\<lambda>class_batches.
          bind_err (OML_inner_loops C self inputs labels 0 class_batches
                      \<lparr>learner = learner0,
                       last_output = None,
                       total_classes_present = 0,
                       query_inputs = [],
                       query_labels = [],
                       quick_update_inputs = [],
                       quick_update_labels = [],
                       logging = [],
                       heads = []\<rparr>) (\<lambda>st.
            final_evaluation C st (HeadsInner (total_classes_present st) False))))"

definition OML_meta_learn ::
  "('x, 'w, 'o, 'l, 'm, 'p) collaborators \<Rightarrow> nat list \<Rightarrow> 'w cl_instance \<Rightarrow> ('x \<times> int) list
   \<Rightarrow> 'w cl_instance \<times> (py_error + ('x, 'l, 'm) report)" where
  "OML_meta_learn C perm self batch =
     (self, OML_episode C perm self (map fst batch) (map snd batch))"

section \<open>The models of \<open>train_cl.py\<close>\<close>

text \<open>
  \<open>FSCLModel\<close> and \<open>OMLModel\<close> hold one classification layer per class,
  \<open>n_classes = cfg.n_way\<close> of them. The encoder and the layers are parameters; the logits
  are the list of the outputs of the layers used, one column each.
  \<open>FSCLModel.forward\<close> uses the first \<open>total_classes_present\<close> layers and raises
  IndexError when there are fewer; \<open>OMLModel.forward\<close> uses all layers and does not read
  \<open>total_classes_present\<close> (\<open>inner_loop\<close> only switches gradient tracking of the encoder).
\<close>

definition FSCLModel_forward ::
  "('a \<Rightarrow> 'f) \<Rightarrow> ('f \<Rightarrow> 'g) list \<Rightarrow> 'a \<Rightarrow> nat \<Rightarrow> py_error + 'g list" where
  "FSCLModel_forward encoder classifiers audio total_classes_present' =
     (let features = encoder audio
      in if length classifiers < total_classes_present' then Inl IndexError
         else cat (map (\<lambda>c_layer. [(classifiers ! c_layer) features])
                     [0..<total_classes_present']))"

definition OMLModel_forward ::
  "('a \<Rightarrow> 'f) \<Rightarrow> ('f \<Rightarrow> 'g) list \<Rightarrow> 'a \<Rightarrow> nat \<Rightarrow> bool \<Rightarrow> py_error + 'g list" where
  "OMLModel_forward encoder classifiers audio total_classes_present' inner_loop =
     (let features = encoder audio
      in cat (map (\<lambda>c_layer. [(classifiers ! c_layer) features]) [0..<length classifiers]))"

section \<open>The head size of the specification\<close>


section \<open>Concrete collaborators\<close>

text \<open>
  Instances of the collaborators on which the definitions above run on concrete episodes.
  A row of the batch is a number, the encoder is the identity, each classification layer
  returns the number of rows, and the parameters of the learner count its adaptation steps.
  The loss raises IndexError on a label outside the columns of the logits, as a
  cross-entropy does.
\<close>

definition test_loss :: "'g list \<Rightarrow> int list \<Rightarrow> py_error + nat" where
  "test_loss logits labels =
     (if \<forall>y\<in>set labels. 0 \<le> y \<and> nat y < length logits then Inr 0 else Inl IndexError)"

definition FSCL_test_collaborators ::
  "nat \<Rightarrow> (nat, nat, nat list, nat, nat, unit) collaborators" where
  "FSCL_test_collaborators n_way =
     \<lparr>forward = (\<lambda>w x args.
                   case args of
                     Heads h \<Rightarrow> FSCLModel_forward (\<lambda>audio. audio) (replicate n_way length) x h
                   | _ \<Rightarrow> Inl TypeError),
      loss_func = test_loss,
      calculate_accuracy = (\<lambda>out labels. Inr 0),
      adapt = (\<lambda>w loss. Suc w),
      opt_step = (\<lambda>p w loss. (p, w)),
      set_mode = (\<lambda>b w. w)\<rparr>"

definition OML_test_collaborators ::
  "nat \<Rightarrow> (nat, nat, nat list, nat, nat, unit) collaborators" where
  "OML_test_collaborators n_way =
     \<lparr>forward = (\<lambda>w x args.
                   case args of
                     HeadsInner h inner_loop \<Rightarrow>
                       OMLModel_forward (\<lambda>audio. audio) (replicate n_way length) x h inner_loop
                   | _ \<Rightarrow> Inl TypeError),
      loss_func = test_loss,
      calculate_accuracy = (\<lambda>out labels. Inr 0),
      adapt = (\<lambda>w loss. Suc w),
      opt_step = (\<lambda>p w loss. (p, w)),
      set_mode = (\<lambda>b w. w)\<rparr>"

text \<open>
  For \<open>VanillaMAML\<close> and \<open>Reptile\<close>: a model of two columns of logits whose parameters
  are a state dictionary; an optimiser step adds one to every parameter.
\<close>

definition plain_test_collaborators ::
  "(nat, state_dict, nat list, nat, nat, nat) collaborators" where
  "plain_test_collaborators =
     \<lparr>forward = (\<lambda>w x args.
                   case args of
                     Plain \<Rightarrow> Inr [length x, length x]
                   | _ \<Rightarrow> Inl TypeError),
      loss_func = test_loss,
      calculate_accuracy = (\<lambda>out labels. Inr 0),
      adapt = (\<lambda>w loss. map (\<lambda>(name, t). (name, map (\<lambda>v. v + 1) t)) w),
      opt_step = (\<lambda>p w loss. (Suc p, map (\<lambda>(name, t). (name, map (\<lambda>v. v + 1) t)) w)),
      set_mode = (\<lambda>b w. w)\<rparr>"

text \<open>An instance of \<open>Reptile\<close> with two named parameter tensors, in training mode, at
  outer step 1 of 2.\<close>

definition reptile_example :: "(nat, nat) reptile" where
  "reptile_example =
     \<lparr>rp_model = [(''w'', [1, 2]), (''b'', [0])], rp_optimizer = 0, rp_training = True,
      rp_train_update_steps = 1, rp_augmentation = None, rp_outer_steps = 1,
      rp_initial_lr = 1, rp_max_steps = 2\<rparr>"

section \<open>Properties\<close>

text \<open>
  Claim C8 (evaluation at the failing input). The way \<open>training_step\<close> and
  \<open>validation_step\<close> call \<open>meta_learn\<close> on the base class, with the batch as argument,
  raises TypeError for every batch; NotImplementedError is raised only by a call without
  arguments.
\<close>

theorem base_meta_learn_with_batch_TypeError:
  "snd (GradientLearningBase_training_step self batch batch_idx) = Inl TypeError
   \<and> snd (GradientLearningBase_validation_step self batch batch_idx) = Inl TypeError
   \<and> GradientLearningBase_meta_learn [] = Inl NotImplementedError"
  by (simp add: GradientLearningBase_training_step_def GradientLearningBase_validation_step_def
      GradientLearningBase_meta_learn_def)

text \<open>
  Claim C10. Every construction of a \<open>VanillaMAML\<close> instance raises NameError, whatever
  the model passed in, so no instance exists on which \<open>meta_learn\<close> could be called.
\<close>

theorem VanillaMAML_init_NameError:
  "VanillaMAML_init model train_update_steps augmentation = Inl NameError"
  by (simp add: VanillaMAML_init_def lookup_global_def module_globals_def)

subsection \<open>Lemmas on the helpers\<close>


lemma nth_image_perm: "length perm = n \<Longrightarrow> (\<lambda>j. perm ! j) ` {0..<n} = set perm"
  by (auto simp: set_conv_nth image_iff)



lemma set_unique: "set (unique t) = set t" by (simp add: unique_def)
lemma sorted_unique: "sorted (unique t)" by (simp add: unique_def)
lemma distinct_unique: "distinct (unique t)" by (simp add: unique_def)

lemma unique_range:
  assumes "set t = int ` {0..<n}"
  shows "unique t = map int [0..<n]"
proof (rule sorted_distinct_set_unique)
  show "sorted (unique t)" by (rule sorted_unique)
  show "distinct (unique t)" by (rule distinct_unique)
  show "sorted (map int [0..<n])" by (simp add: sorted_map strict_sorted_iff sorted_wrt_map)
  show "distinct (map int [0..<n])" by (simp add: distinct_map)
  show "set (unique t) = set (map int [0..<n])" using assms by (simp add: set_unique)
qed

lemma relabel_upt:
  "k \<le> length xs \<Longrightarrow> \<forall>i. k \<le> i \<and> i < length xs \<longrightarrow> conv (xs ! i) = Some (f (xs ! i))
   \<Longrightarrow> relabel conv [k..<length xs] xs = Inr (take k xs @ map f (drop k xs))"
proof (induction "length xs - k" arbitrary: k xs)
  case 0
  then show ?case by simp
next
  case (Suc d)
  then have k: "k < length xs" by simp
  let ?ys = "xs[k := f (xs ! k)]"
  have upt: "[k..<length xs] = k # [Suc k..<length xs]" using k by (simp add: upt_conv_Cons)
  have ck: "conv (xs ! k) = Some (f (xs ! k))" using Suc.prems(2) k by simp
  have d: "d = length ?ys - Suc k" using Suc.hyps(2) by simp
  have h: "\<forall>i. Suc k \<le> i \<and> i < length ?ys \<longrightarrow> conv (?ys ! i) = Some (f (?ys ! i))"
    using Suc.prems(2) by simp
  have ih: "relabel conv [Suc k..<length xs] ?ys = Inr (take (Suc k) ?ys @ map f (drop (Suc k) ?ys))"
    using Suc.hyps(1)[OF d _ h] k by simp
  have t: "take (Suc k) ?ys = take k xs @ [f (xs ! k)]"
    using k by (simp add: take_Suc_conv_app_nth)
  have dr: "drop k xs = xs ! k # drop (Suc k) xs" using k by (simp add: Cons_nth_drop_Suc)
  show ?case
    unfolding upt by (simp add: ck ih t dr del: upt_Suc)
qed



subsection \<open>The label randomizer\<close>

lemma return_random_labels_explicit:
  assumes labels: "set batch_labels = int ` {0..<n}"
      and perm: "mset perm = mset [0..<n]"
  shows "return_random_labels perm batch_labels
           = Inr (map (\<lambda>k. int (perm ! nat k)) batch_labels)"
proof -
  have u: "unique batch_labels = map int [0..<n]" by (rule unique_range[OF labels])
  have len: "length perm = n" using mset_eq_length[OF perm] by simp
  have sp: "set perm = {0..<n}" using mset_eq_setD[OF perm] by simp
  have rl: "gather (unique batch_labels) perm = map int perm"
    unfolding gather_def u using sp by simp
  have conv: "map_of (zip (map int [0..<n]) (map int perm)) (batch_labels ! i)
                = Some (int (perm ! nat (batch_labels ! i)))" if i: "i < length batch_labels" for i
  proof -
    have "batch_labels ! i \<in> int ` {0..<n}" using i labels nth_mem by blast
    then obtain j where j: "j < n" "batch_labels ! i = int j" by auto
    have "map_of (zip (map int [0..<n]) (map int perm)) (map int [0..<n] ! j)
            = Some (map int perm ! j)"
      by (rule map_of_zip_nth) (simp_all add: len j distinct_map)
    then show ?thesis using j len by simp
  qed
  show ?thesis
    unfolding return_random_labels_def Let_def rl
    using relabel_upt[of 0 batch_labels _ "\<lambda>k. int (perm ! nat k)"] conv by (simp add: len)
qed

lemma relabelled_image:
  assumes labels: "set batch_labels = int ` {0..<n}"
      and perm: "mset perm = mset [0..<n]"
  shows "(\<lambda>k. int (perm ! nat k)) ` set batch_labels = set batch_labels"
proof -
  have len: "length perm = n" using mset_eq_length[OF perm] by simp
  have sp: "set perm = {0..<n}" using mset_eq_setD[OF perm] by simp
  have "(\<lambda>k. int (perm ! nat k)) ` int ` {0..<n} = int ` ((\<lambda>j. perm ! j) ` {0..<n})"
    by (simp add: image_image)
  also have "(\<lambda>j. perm ! j) ` {0..<n} = set perm"
    by (rule nth_image_perm[OF len])
  finally show ?thesis using labels sp by simp
qed

lemma relabel_keys:
  "relabel conv [k..<length xs] xs = Inr ys \<Longrightarrow> k \<le> i \<Longrightarrow> i < length xs
   \<Longrightarrow> conv (xs ! i) \<noteq> None"
proof (induction "length xs - k" arbitrary: k xs)
  case 0
  then show ?case by simp
next
  case (Suc d)
  then have k: "k < length xs" by simp
  have upt: "[k..<length xs] = k # [Suc k..<length xs]" using k by (simp add: upt_conv_Cons)
  obtain v where v: "conv (xs ! k) = Some v"
    using Suc.prems(1) unfolding upt by (cases "conv (xs ! k)") simp_all
  let ?zs = "xs[k := v]"
  have run: "relabel conv [Suc k..<length ?zs] ?zs = Inr ys"
    using Suc.prems(1) unfolding upt by (simp add: v)
  show ?case
  proof (cases "i = k")
    case True
    then show ?thesis using v by simp
  next
    case False
    then have i: "Suc k \<le> i" "i < length ?zs" using Suc.prems by simp_all
    have d: "d = length ?zs - Suc k" using Suc.hyps(2) by simp
    have "conv (?zs ! i) \<noteq> None" by (rule Suc.hyps(1)[OF d run i])
    then show ?thesis using False by simp
  qed
qed

lemma return_random_labels_range:
  assumes ok: "return_random_labels perm batch_labels = Inr out"
      and perm: "mset perm = mset [0..<length (unique batch_labels)]"
  shows "set batch_labels = int ` {0..<length (unique batch_labels)}"
proof -
  let ?n = "length (unique batch_labels)"
  let ?conv = "map_of (zip (map int [0..<length (gather (unique batch_labels) perm)])
                 (gather (unique batch_labels) perm))"
  have len: "length perm = ?n" using mset_eq_length[OF perm] by simp
  have lg: "length (gather (unique batch_labels) perm) = ?n" by (simp add: gather_def len)
  have run: "relabel ?conv [0..<length batch_labels] batch_labels = Inr out"
    using ok by (simp add: return_random_labels_def Let_def)
  have sub: "set batch_labels \<subseteq> int ` {0..<?n}"
  proof
    fix x assume "x \<in> set batch_labels"
    then obtain i where i: "i < length batch_labels" "batch_labels ! i = x"
      by (auto simp: in_set_conv_nth)
    have "?conv (batch_labels ! i) \<noteq> None" by (rule relabel_keys[OF run _ i(1)]) simp
    then have "x \<in> dom ?conv" using i by auto
    also have "dom ?conv = set (map int [0..<?n])"
      unfolding lg by (rule dom_map_of_zip) (simp add: lg)
    finally show "x \<in> int ` {0..<?n}" by simp
  qed
  have "card (set batch_labels) = ?n"
    using distinct_card[OF distinct_unique[of batch_labels]] by (simp add: set_unique)
  moreover have "card (int ` {0..<?n}) = ?n" by (simp add: card_image)
  ultimately show ?thesis
    using sub by (intro card_subset_eq) simp_all
qed

lemma relabel_error: "relabel conv is xs = Inl e \<Longrightarrow> e = KeyError"
  by (induction "is" arbitrary: xs) (auto split: option.splits)

lemma return_random_labels_error:
  "return_random_labels perm batch_labels = Inl e \<Longrightarrow> e = KeyError"
  unfolding return_random_labels_def Let_def by (rule relabel_error)

text \<open>
  Claim C2, as amended. Let \<open>n\<close> be the length of the permutation drawn. For every label
  sequence whose distinct values are exactly \<open>0 .. n - 1\<close>, \<open>return_random_labels\<close>
  returns a sequence of the same length with the same set of values, in which two positions
  share a value if and only if they did in the input. For every other label sequence, with
  \<open>n\<close> the number of its distinct values as in the code, the call raises KeyError.
\<close>

theorem return_random_labels_bijection:
  assumes perm: "mset perm = mset [0..<n]"
  shows "(set batch_labels = int ` {0..<n} \<longrightarrow>
           (\<exists>out. return_random_labels perm batch_labels = Inr out
              \<and> length out = length batch_labels
              \<and> set out = set batch_labels
              \<and> (\<forall>i<length batch_labels. \<forall>j<length batch_labels.
                    out ! i = out ! j \<longleftrightarrow> batch_labels ! i = batch_labels ! j)))
       \<and> (n = length (unique batch_labels) \<and> set batch_labels \<noteq> int ` {0..<n} \<longrightarrow>
           return_random_labels perm batch_labels = Inl KeyError)"
proof (intro conjI impI)
  assume labels: "set batch_labels = int ` {0..<n}"
  define f where "f k = int (perm ! nat k)" for k
  have len: "length perm = n" using mset_eq_length[OF perm] by simp
  have dp: "distinct perm" using mset_eq_imp_distinct_iff[OF perm] by simp
  have res: "return_random_labels perm batch_labels = Inr (map f batch_labels)"
    unfolding f_def by (rule return_random_labels_explicit[OF labels perm])
  have inj: "f a = f b \<longleftrightarrow> a = b" if ab: "a \<in> set batch_labels" "b \<in> set batch_labels" for a b
  proof -
    obtain i j where ij: "i < n" "a = int i" "j < n" "b = int j" using ab labels by auto
    have "perm ! i = perm ! j \<longleftrightarrow> i = j"
      using dp ij len by (simp add: nth_eq_iff_index_eq)
    then show ?thesis using ij by (simp add: f_def)
  qed
  have img: "f ` set batch_labels = set batch_labels"
    unfolding f_def by (rule relabelled_image[OF labels perm])
  show "\<exists>out. return_random_labels perm batch_labels = Inr out
      \<and> length out = length batch_labels
      \<and> set out = set batch_labels
      \<and> (\<forall>i<length batch_labels. \<forall>j<length batch_labels.
            out ! i = out ! j \<longleftrightarrow> batch_labels ! i = batch_labels ! j)"
    using res inj img by (intro exI[of _ "map f batch_labels"]) simp
next
  assume h: "n = length (unique batch_labels) \<and> set batch_labels \<noteq> int ` {0..<n}"
  have p: "mset perm = mset [0..<length (unique batch_labels)]" using perm h by simp
  show "return_random_labels perm batch_labels = Inl KeyError"
  proof (cases "return_random_labels perm batch_labels")
    case (Inl e)
    then show ?thesis using return_random_labels_error[OF Inl] by simp
  next
    case (Inr out)
    have "set batch_labels = int ` {0..<length (unique batch_labels)}"
      by (rule return_random_labels_range[OF Inr p])
    then show ?thesis using h by blast
  qed
qed

theorem return_random_labels_bijection_witness:
  "mset [1, 0, 2] = mset [0..<3::nat] \<and> set [0, 0, 1, 1, 2, 2 :: int] = int ` {0..<3}
   \<and> (\<exists>out. return_random_labels [1, 0, 2] [0, 0, 1, 1, 2, 2] = Inr out
      \<and> length out = length [0, 0, 1, 1, 2, 2 :: int]
      \<and> set out = set [0, 0, 1, 1, 2, 2]
      \<and> (\<forall>i<length [0, 0, 1, 1, 2, 2 :: int]. \<forall>j<length [0, 0, 1, 1, 2, 2 :: int].
            out ! i = out ! j \<longleftrightarrow> [0, 0, 1, 1, 2, 2] ! i = [0, 0, 1, 1, 2, 2 :: int] ! j))
   \<and> mset [1, 0] = mset [0..<2::nat] \<and> 2 = length (unique [0, 0, 3, 3])
   \<and> set [0, 0, 3, 3 :: int] \<noteq> int ` {0..<2}
   \<and> return_random_labels [1, 0] [0, 0, 3, 3] = Inl KeyError"
proof -
  have h1: "set [0, 0, 1, 1, 2, 2 :: int] = int ` {0..<3}"
    by (auto simp: image_iff numeral_3_eq_3 less_Suc_eq)
  have h2: "mset [1, 0, 2] = mset [0..<3::nat]"
    by (simp add: numeral_3_eq_3)
  have h3: "mset [1, 0] = mset [0..<2::nat]"
    by (simp add: numeral_2_eq_2)
  have h4: "2 = length (unique [0, 0, 3, 3])" by (simp add: unique_def)
  have h5: "set [0, 0, 3, 3 :: int] \<noteq> int ` {0..<2}"
  proof
    assume "set [0, 0, 3, 3 :: int] = int ` {0..<2}"
    then have "(3::int) \<in> int ` {0..<2}" by auto
    then show False by auto
  qed
  have c1: "\<exists>out. return_random_labels [1, 0, 2] [0, 0, 1, 1, 2, 2] = Inr out
      \<and> length out = length [0, 0, 1, 1, 2, 2 :: int]
      \<and> set out = set [0, 0, 1, 1, 2, 2]
      \<and> (\<forall>i<length [0, 0, 1, 1, 2, 2 :: int]. \<forall>j<length [0, 0, 1, 1, 2, 2 :: int].
            out ! i = out ! j \<longleftrightarrow> [0, 0, 1, 1, 2, 2] ! i = [0, 0, 1, 1, 2, 2 :: int] ! j)"
    using return_random_labels_bijection[OF h2, of "[0, 0, 1, 1, 2, 2]"] h1 by blast
  have c2: "return_random_labels [1, 0] [0, 0, 3, 3] = Inl KeyError"
    using return_random_labels_bijection[OF h3, of "[0, 0, 3, 3]"] h4 h5 by blast
  show ?thesis using h1 h2 h3 h4 h5 c1 c2 by blast
qed

text \<open>
  Claim C2, as stated, fails: the dictionary is keyed by the positions \<open>0 .. n - 1\<close>, so a
  label sequence with any other value raises KeyError.
\<close>

theorem return_random_labels_counterexample:
  "return_random_labels [1, 0] [5, 5, 7, 7] = Inl KeyError"
  by code_simp

subsection \<open>Indexer and batch splitter\<close>


lemma evens_map: "evens (map f xs) = map f (evens xs)"
  by (induction xs rule: evens.induct) simp_all

lemma odds_map: "odds (map f xs) = map f (odds xs)"
  by (induction xs rule: odds.induct) simp_all

lemma evens_append: "even (length xs) \<Longrightarrow> evens (xs @ ys) = evens xs @ evens ys"
  by (induction xs rule: evens.induct) simp_all

lemma odds_append: "even (length xs) \<Longrightarrow> odds (xs @ ys) = odds xs @ odds ys"
  by (induction xs rule: odds.induct) simp_all

lemma length_evens: "length (evens xs) = (length xs + 1) div 2"
  by (induction xs rule: evens.induct) simp_all

lemma length_odds: "length (odds xs) = length xs div 2"
  by (induction xs rule: odds.induct) simp_all

lemma evens_replicate: "evens (replicate (2 * k) c) = replicate k c"
  by (induction k) simp_all

lemma odds_replicate: "odds (replicate (2 * k) c) = replicate k c"
  by (induction k) simp_all

lemma gather_where_eq: "gather t (where_eq t c) = replicate (count_list t c) c"
proof -
  have "gather t (where_eq t c) = filter (\<lambda>x. x = c) (map (\<lambda>i. t ! i) [0..<length t])"
    by (simp add: gather_def where_eq_def filter_map comp_def)
  also have "\<dots> = filter (\<lambda>x. x = c) t" by (simp add: map_nth)
  also have "\<dots> = replicate (count_list t c) c"
    by (induction t) simp_all
  finally show ?thesis .
qed

lemma gather_append: "gather t (a @ b) = gather t a @ gather t b"
  by (simp add: gather_def)

lemma gather_concat: "gather t (concat xss) = concat (map (gather t) xss)"
  by (induction xss) (simp_all add: gather_def)

lemma gather_evens: "gather t (evens idx) = evens (gather t idx)"
  by (simp add: gather_def evens_map)

lemma gather_odds: "gather t (odds idx) = odds (gather t idx)"
  by (simp add: gather_def odds_map)

text \<open>The labels selected for a list of classes: one run per class.\<close>

lemma gather_classes:
  "gather t (concat (map (where_eq t) classes))
     = concat (map (\<lambda>c. replicate (count_list t c) c) classes)"
  by (simp add: gather_concat comp_def gather_where_eq)

lemma evens_runs:
  "\<forall>c\<in>set classes. even (cnt c) \<Longrightarrow>
   evens (concat (map (\<lambda>c. replicate (cnt c) c) classes))
     = concat (map (\<lambda>c. replicate (cnt c div 2) c) classes)"
proof (induction classes)
  case Nil
  then show ?case by simp
next
  case (Cons c cs)
  then obtain k where k: "cnt c = 2 * k" by auto
  show ?case using Cons by (simp add: evens_append k evens_replicate)
qed

lemma odds_runs:
  "\<forall>c\<in>set classes. even (cnt c) \<Longrightarrow>
   odds (concat (map (\<lambda>c. replicate (cnt c) c) classes))
     = concat (map (\<lambda>c. replicate (cnt c div 2) c) classes)"
proof (induction classes)
  case Nil
  then show ?case by simp
next
  case (Cons c cs)
  then obtain k where k: "cnt c = 2 * k" by auto
  show ?case using Cons by (simp add: odds_append k odds_replicate)
qed

lemma count_list_replicate: "count_list (replicate k c) c' = (if c' = c then k else 0)"
  by (induction k) auto

lemma count_runs:
  "distinct classes \<Longrightarrow>
   count_list (concat (map (\<lambda>c. replicate (h c) c) classes)) c
     = (if c \<in> set classes then h c else 0)"
  by (induction classes) (auto simp: count_list_replicate)


lemma bind_err_Inr_iff: "bind_err m f = Inr y \<longleftrightarrow> (\<exists>x. m = Inr x \<and> f x = Inr y)"
  by (cases m) simp_all

lemma chunk2_halves:
  assumes "length a = length b"
  shows "chunk2 (a @ b) = Inr (a, b)"
proof -
  have "length b + length b \<noteq> Suc 0" by presburger
  moreover have "(length b + length b + 1) div 2 = length b" by simp
  ultimately show ?thesis using assms by (simp add: chunk2_def)
qed

lemma split_batch_halves:
  "length a = length b \<Longrightarrow> length c = length d \<Longrightarrow>
   split_batch (a @ b) (c @ d) = Inr (a, c, b, d)"
  by (simp add: split_batch_def chunk2_halves)

lemma length_where_eq: "length (where_eq t c) = count_list t c"
  using arg_cong[OF gather_where_eq[of t c], of length] by (simp add: gather_def)

lemma even_length_class_indexes:
  "\<forall>c\<in>set classes. even (count_list t c) \<Longrightarrow>
   even (length (concat (map (where_eq t) classes)))"
  by (induction classes) (simp_all add: length_where_eq)

lemma halves_same_length:
  "even (length xs) \<Longrightarrow> length (evens xs) = length (odds xs)"
  by (auto simp: length_evens length_odds)

lemma return_indexes_nonempty:
  "classes \<noteq> [] \<Longrightarrow>
   return_indexes t classes
     = Inr (tensor_of_indexes
              (evens (concat (map (where_eq t) classes)) @ odds (concat (map (where_eq t) classes))))"
  by (simp add: return_indexes_def cat_def)

lemma return_indexes_empty: "return_indexes t [] = Inl RuntimeError"
  by (simp add: return_indexes_def cat_def)

lemma where_eq_bound: "i \<in> set (where_eq t c) \<Longrightarrow> i < length t \<and> t ! i = c"
  by (simp add: where_eq_def)

lemma set_where_eq: "set (where_eq t c) = {i. i < length t \<and> t ! i = c}"
  by (auto simp: where_eq_def)

lemma distinct_where_eq: "distinct (where_eq t c)"
  by (simp add: where_eq_def)

lemma set_evens_odds: "set (evens xs) \<union> set (odds xs) = set xs"
  by (induction xs rule: evens.induct) auto

lemma mset_evens_odds: "mset (evens xs) + mset (odds xs) = mset xs"
  by (induction xs rule: evens.induct) simp_all

lemma class_indexes_bound:
  "i \<in> set (concat (map (where_eq t) classes)) \<Longrightarrow> i < length t \<and> t ! i \<in> set classes"
  by (auto simp: where_eq_def)

lemma index_rows_long:
  "indexes \<noteq> [] \<Longrightarrow> \<forall>i\<in>set indexes. i < length t \<Longrightarrow>
   index_rows t (tensor_of_indexes indexes) = Inr (gather t indexes)"
  by (simp add: index_rows_def tensor_of_indexes_def)

lemma index_rows_success:
  "index_rows t (tensor_of_indexes indexes) = Inr rows \<Longrightarrow>
   rows = gather t indexes \<and> indexes \<noteq> [] \<and> (\<forall>i\<in>set indexes. i < length t)"
  by (auto simp: index_rows_def tensor_of_indexes_def split: if_splits)

text \<open>When none of the listed classes occurs among the labels, the index tensor is the
  floating-point one and the indexing raises.\<close>

lemma return_indexes_absent:
  assumes "classes \<noteq> []" and "\<forall>c\<in>set classes. c \<notin> set labels"
  shows "return_indexes labels classes = Inr EmptyFloatTensor
       \<and> iteration_split inputs labels classes = Inl IndexError"
proof -
  have "where_eq labels c = []" if "c \<in> set classes" for c
    using assms(2) that by (auto simp: where_eq_def filter_empty_conv)
  then have I: "concat (map (where_eq labels) classes) = []" by simp
  have "return_indexes labels classes = Inr EmptyFloatTensor"
    unfolding return_indexes_nonempty[OF assms(1)] I by (simp add: tensor_of_indexes_def)
  then show ?thesis by (simp add: iteration_split_def index_rows_def)
qed

lemma iteration_split_success:
  assumes ok: "iteration_split inputs labels classes = Inr (si, sl, qi, ql)"
      and ev: "\<forall>c\<in>set classes. even (count_list labels c)"
  shows "si = gather inputs (evens (concat (map (where_eq labels) classes)))
       \<and> sl = gather labels (evens (concat (map (where_eq labels) classes)))
       \<and> qi = gather inputs (odds (concat (map (where_eq labels) classes)))
       \<and> ql = gather labels (odds (concat (map (where_eq labels) classes)))"
proof -
  let ?I = "concat (map (where_eq labels) classes)"
  have ne: "classes \<noteq> []" using ok by (auto simp: iteration_split_def return_indexes_empty)
  from ok obtain rows ls where
    r: "index_rows inputs (tensor_of_indexes (evens ?I @ odds ?I)) = Inr rows"
    and l: "index_rows labels (tensor_of_indexes (evens ?I @ odds ?I)) = Inr ls"
    and sp: "split_batch rows ls = Inr (si, sl, qi, ql)"
    by (auto simp: iteration_split_def return_indexes_nonempty[OF ne] bind_err_Inr_iff)
  have rows: "rows = gather inputs (evens ?I) @ gather inputs (odds ?I)"
    using index_rows_success[OF r] by (simp add: gather_append)
  have ls: "ls = gather labels (evens ?I) @ gather labels (odds ?I)"
    using index_rows_success[OF l] by (simp add: gather_append)
  have evI: "even (length ?I)" by (rule even_length_class_indexes[OF ev])
  have len: "length (evens ?I) = length (odds ?I)" by (rule halves_same_length[OF evI])
  have "split_batch rows ls
          = Inr (gather inputs (evens ?I), gather labels (evens ?I),
                 gather inputs (odds ?I), gather labels (odds ?I))"
    unfolding rows ls by (rule split_batch_halves) (simp_all add: gather_def len)
  then show ?thesis using sp by simp
qed

lemma support_query_labels:
  assumes ev: "\<forall>c\<in>set classes. even (count_list labels c)"
  shows "gather labels (evens (concat (map (where_eq labels) classes)))
           = concat (map (\<lambda>c. replicate (count_list labels c div 2) c) classes)"
    and "gather labels (odds (concat (map (where_eq labels) classes)))
           = concat (map (\<lambda>c. replicate (count_list labels c div 2) c) classes)"
  by (simp_all add: gather_evens gather_odds gather_classes evens_runs[OF ev] odds_runs[OF ev])

lemma distinct_class_indexes:
  "distinct classes \<Longrightarrow> distinct (concat (map (where_eq t) classes))"
proof (induction classes)
  case Nil
  then show ?case by simp
next
  case (Cons c cs)
  have "set (where_eq t c) \<inter> set (concat (map (where_eq t) cs)) = {}"
  proof (rule ccontr)
    assume "set (where_eq t c) \<inter> set (concat (map (where_eq t) cs)) \<noteq> {}"
    then obtain i where i: "i \<in> set (where_eq t c)" "i \<in> set (concat (map (where_eq t) cs))"
      by blast
    have "t ! i = c" using where_eq_bound[OF i(1)] by simp
    moreover have "t ! i \<in> set cs" using class_indexes_bound[OF i(2)] by simp
    ultimately show False using Cons.prems by simp
  qed
  then show ?case using Cons by (simp add: distinct_where_eq)
qed

lemma set_class_indexes:
  "set (concat (map (where_eq t) classes)) = {i. i < length t \<and> t ! i \<in> set classes}"
  by (auto simp: set_where_eq)

lemma count_list_gather:
  "count_list (gather t idx) c = length (filter (\<lambda>i. t ! i = c) idx)"
  by (induction idx) (simp_all add: gather_def)

text \<open>
  Claim C6. For a label tensor and a list of distinct classes, at least one of which occurs,
  each with an even number of examples (in particular: all classes present, equally
  represented, the count divisible by 2): let \<open>support_idx\<close> and \<open>query_idx\<close> be the
  positions at the even and at the odd places of the list of the positions of the classes.
  \<open>return_indexes\<close> returns the integer tensor \<open>support_idx @ query_idx\<close>, which holds each
  position of a listed class once; \<open>split_batch\<close> of the rows and labels reordered by it
  returns the rows and labels at \<open>support_idx\<close> as the support set and those at
  \<open>query_idx\<close> as the query set; and each of the two holds exactly half of the examples of
  every class.
\<close>

theorem return_indexes_split_halves:
  assumes dist: "distinct classes"
      and ev: "\<forall>c\<in>set classes. even (count_list labels c)"
      and some: "\<exists>c\<in>set classes. c \<in> set labels"
      and rows: "length inputs = length labels"
  shows "\<exists>support_idx query_idx.
           support_idx = evens (concat (map (where_eq labels) classes))
         \<and> query_idx = odds (concat (map (where_eq labels) classes))
         \<and> return_indexes labels classes = Inr (LongTensor (support_idx @ query_idx))
         \<and> index_rows inputs (LongTensor (support_idx @ query_idx))
              = Inr (gather inputs (support_idx @ query_idx))
         \<and> index_rows labels (LongTensor (support_idx @ query_idx))
              = Inr (gather labels (support_idx @ query_idx))
         \<and> split_batch (gather inputs (support_idx @ query_idx))
                         (gather labels (support_idx @ query_idx))
              = Inr (gather inputs support_idx, gather labels support_idx,
                     gather inputs query_idx, gather labels query_idx)
         \<and> distinct (support_idx @ query_idx)
         \<and> set (support_idx @ query_idx) = {i. i < length labels \<and> labels ! i \<in> set classes}
         \<and> (\<forall>c\<in>set classes.
               length (filter (\<lambda>i. labels ! i = c) support_idx) = count_list labels c div 2
             \<and> length (filter (\<lambda>i. labels ! i = c) query_idx) = count_list labels c div 2
             \<and> count_list (gather labels support_idx) c = count_list labels c div 2
             \<and> count_list (gather labels query_idx) c = count_list labels c div 2)"
proof -
  let ?I = "concat (map (where_eq labels) classes)"
  let ?half = "concat (map (\<lambda>c. replicate (count_list labels c div 2) c) classes)"
  have ne: "classes \<noteq> []" using some by auto
  have evI: "even (length ?I)" by (rule even_length_class_indexes[OF ev])
  have len: "length (evens ?I) = length (odds ?I)" by (rule halves_same_length[OF evI])
  have st: "set (evens ?I @ odds ?I) = {i. i < length labels \<and> labels ! i \<in> set classes}"
    using set_evens_odds[of ?I] set_class_indexes[of labels classes] by simp
  from some obtain c where c: "c \<in> set classes" "c \<in> set labels" by blast
  then obtain i where "i < length labels" "labels ! i = c" by (auto simp: in_set_conv_nth)
  then have "i \<in> set (evens ?I @ odds ?I)" unfolding st using c(1) by simp
  then have nonempty: "evens ?I @ odds ?I \<noteq> []" by auto
  have bound: "\<forall>i\<in>set (evens ?I @ odds ?I). i < length labels" unfolding st by simp
  have bound': "\<forall>i\<in>set (evens ?I @ odds ?I). i < length inputs" using bound rows by simp
  have ri: "return_indexes labels classes = Inr (LongTensor (evens ?I @ odds ?I))"
    using nonempty by (simp add: return_indexes_nonempty[OF ne] tensor_of_indexes_def)
  have xi: "index_rows inputs (LongTensor (evens ?I @ odds ?I))
              = Inr (gather inputs (evens ?I @ odds ?I))"
    using bound' by (simp add: index_rows_def)
  have xl: "index_rows labels (LongTensor (evens ?I @ odds ?I))
              = Inr (gather labels (evens ?I @ odds ?I))"
    using bound by (simp add: index_rows_def)
  have "split_batch (gather inputs (evens ?I) @ gather inputs (odds ?I))
                    (gather labels (evens ?I) @ gather labels (odds ?I))
          = Inr (gather inputs (evens ?I), gather labels (evens ?I),
                 gather inputs (odds ?I), gather labels (odds ?I))"
    by (rule split_batch_halves) (simp_all add: gather_def len)
  then have sp: "split_batch (gather inputs (evens ?I @ odds ?I))
                             (gather labels (evens ?I @ odds ?I))
          = Inr (gather inputs (evens ?I), gather labels (evens ?I),
                 gather inputs (odds ?I), gather labels (odds ?I))"
    by (simp add: gather_append)
  have "mset (evens ?I @ odds ?I) = mset ?I" using mset_evens_odds[of ?I] by simp
  then have di: "distinct (evens ?I @ odds ?I)"
    using distinct_class_indexes[OF dist, of labels] mset_eq_imp_distinct_iff by blast
  have cs: "count_list (gather labels (evens ?I)) c = count_list labels c div 2"
    and cq: "count_list (gather labels (odds ?I)) c = count_list labels c div 2"
    if "c \<in> set classes" for c
    using that by (simp_all add: support_query_labels[OF ev] count_runs[OF dist])
  have cnt: "\<forall>c\<in>set classes.
               length (filter (\<lambda>i. labels ! i = c) (evens ?I)) = count_list labels c div 2
             \<and> length (filter (\<lambda>i. labels ! i = c) (odds ?I)) = count_list labels c div 2
             \<and> count_list (gather labels (evens ?I)) c = count_list labels c div 2
             \<and> count_list (gather labels (odds ?I)) c = count_list labels c div 2"
    using cs cq by (simp add: count_list_gather)
  show ?thesis
    using ri xi xl sp di st cnt by blast
qed

theorem return_indexes_split_halves_witness:
  "distinct [0, 1 :: int]
   \<and> even (count_list [0, 1, 0, 1, 1, 0, 1, 0] (0 :: int))
   \<and> even (count_list [0, 1, 0, 1, 1, 0, 1, 0] (1 :: int))
   \<and> (0 :: int) \<in> set [0, 1] \<and> (0 :: int) \<in> set [0, 1, 0, 1, 1, 0, 1, 0]
   \<and> length ''abcdefgh'' = length [0, 1, 0, 1, 1, 0, 1, 0 :: int]
   \<and> return_indexes [0, 1, 0, 1, 1, 0, 1, 0] [0, 1] = Inr (LongTensor [0, 5, 1, 4, 2, 7, 3, 6])
   \<and> split_batch (gather ''abcdefgh'' [0, 5, 1, 4, 2, 7, 3, 6])
                   (gather [0, 1, 0, 1, 1, 0, 1, 0] [0, 5, 1, 4, 2, 7, 3, 6])
        = Inr (''afbe'', [0, 0, 1, 1], ''chdg'', [0, 0, 1, 1])
   \<and> (\<exists>support_idx query_idx.
           support_idx = evens (concat (map (where_eq [0, 1, 0, 1, 1, 0, 1, 0]) [0, 1]))
         \<and> query_idx = odds (concat (map (where_eq [0, 1, 0, 1, 1, 0, 1, 0]) [0, 1]))
         \<and> return_indexes [0, 1, 0, 1, 1, 0, 1, 0] [0, 1]
              = Inr (LongTensor (support_idx @ query_idx))
         \<and> index_rows ''abcdefgh'' (LongTensor (support_idx @ query_idx))
              = Inr (gather ''abcdefgh'' (support_idx @ query_idx))
         \<and> index_rows [0, 1, 0, 1, 1, 0, 1, 0 :: int] (LongTensor (support_idx @ query_idx))
              = Inr (gather [0, 1, 0, 1, 1, 0, 1, 0] (support_idx @ query_idx))
         \<and> split_batch (gather ''abcdefgh'' (support_idx @ query_idx))
                         (gather [0, 1, 0, 1, 1, 0, 1, 0] (support_idx @ query_idx))
              = Inr (gather ''abcdefgh'' support_idx, gather [0, 1, 0, 1, 1, 0, 1, 0] support_idx,
                     gather ''abcdefgh'' query_idx, gather [0, 1, 0, 1, 1, 0, 1, 0] query_idx)
         \<and> distinct (support_idx @ query_idx)
         \<and> set (support_idx @ query_idx)
              = {i. i < length [0, 1, 0, 1, 1, 0, 1, 0 :: int]
                    \<and> [0, 1, 0, 1, 1, 0, 1, 0] ! i \<in> set [0, 1 :: int]}
         \<and> (\<forall>c\<in>set [0, 1 :: int].
               length (filter (\<lambda>i. [0, 1, 0, 1, 1, 0, 1, 0] ! i = c) support_idx)
                 = count_list [0, 1, 0, 1, 1, 0, 1, 0] c div 2
             \<and> length (filter (\<lambda>i. [0, 1, 0, 1, 1, 0, 1, 0] ! i = c) query_idx)
                 = count_list [0, 1, 0, 1, 1, 0, 1, 0] c div 2
             \<and> count_list (gather [0, 1, 0, 1, 1, 0, 1, 0] support_idx) c
                 = count_list [0, 1, 0, 1, 1, 0, 1, 0] c div 2
             \<and> count_list (gather [0, 1, 0, 1, 1, 0, 1, 0] query_idx) c
                 = count_list [0, 1, 0, 1, 1, 0, 1, 0] c div 2))"
proof -
  have dist: "distinct [0, 1 :: int]" by simp
  have ev: "\<forall>c\<in>set [0, 1 :: int]. even (count_list [0, 1, 0, 1, 1, 0, 1, 0] c)" by simp
  have e0: "even (count_list [0, 1, 0, 1, 1, 0, 1, 0] (0 :: int))" by simp
  have e1: "even (count_list [0, 1, 0, 1, 1, 0, 1, 0] (1 :: int))" by simp
  have p0: "(0 :: int) \<in> set [0, 1]" and p1: "(0 :: int) \<in> set [0, 1, 0, 1, 1, 0, 1, 0]"
    by simp_all
  have some: "\<exists>c\<in>set [0, 1 :: int]. c \<in> set [0, 1, 0, 1, 1, 0, 1, 0]" by simp
  have rows: "length ''abcdefgh'' = length [0, 1, 0, 1, 1, 0, 1, 0 :: int]" by simp
  have r: "return_indexes [0, 1, 0, 1, 1, 0, 1, 0] [0, 1]
             = Inr (LongTensor [0, 5, 1, 4, 2, 7, 3, 6])"
    by code_simp
  have sp: "split_batch (gather ''abcdefgh'' [0, 5, 1, 4, 2, 7, 3, 6])
                   (gather [0, 1, 0, 1, 1, 0, 1, 0] [0, 5, 1, 4, 2, 7, 3, 6 :: nat])
        = Inr (''afbe'', [0, 0, 1, 1 :: int], ''chdg'', [0, 0, 1, 1])"
    by code_simp
  show ?thesis
    using return_indexes_split_halves[OF dist ev some rows] dist e0 e1 p0 p1 rows r sp by blast
qed

subsection \<open>Class batches\<close>

lemma unique_eq_iff_set: "set a = set b \<Longrightarrow> unique a = unique b"
  by (rule sorted_distinct_set_unique) (simp_all add: sorted_unique distinct_unique set_unique)

lemma unique_consecutive:
  assumes "set t = {m..<m + int n}"
  shows "unique t = map (\<lambda>i. m + int i) [0..<n]"
proof (rule sorted_distinct_set_unique)
  show "sorted (unique t)" by (rule sorted_unique)
  show "distinct (unique t)" by (rule distinct_unique)
  show "sorted (map (\<lambda>i. m + int i) [0..<n])"
    by (simp add: sorted_wrt_map sorted_wrt_iff_nth_less)
  show "distinct (map (\<lambda>i. m + int i) [0..<n])"
    by (simp add: distinct_map inj_on_def)
  have "(\<lambda>i. m + int i) ` {0..<n} = {m..<m + int n}"
  proof (intro set_eqI iffI)
    fix x assume "x \<in> (\<lambda>i. m + int i) ` {0..<n}"
    then show "x \<in> {m..<m + int n}" by auto
  next
    fix x assume x: "x \<in> {m..<m + int n}"
    then have "x = m + int (nat (x - m))" "nat (x - m) < n" by auto
    then show "x \<in> (\<lambda>i. m + int i) ` {0..<n}" by (metis atLeastLessThan_iff image_eqI zero_le)
  qed
  then show "set (unique t) = set (map (\<lambda>i. m + int i) [0..<n])"
    using assms by (simp add: set_unique)
qed

lemma tmax_Max: "t \<noteq> [] \<Longrightarrow> tmax t = Inr (Max (set t))"
  by (cases t) (simp_all add: tmax_def Max.set_eq_fold del: set_simps)

lemma tmax_empty: "tmax [] = Inl RuntimeError"
  by (simp add: tmax_def)

lemma take_consecutive:
  "k \<le> n \<Longrightarrow> take k (map (\<lambda>i. m + int i) [0..<n]) = map (\<lambda>i. m + int i) [0..<k]"
  by (simp add: take_map)

lemma Max_consecutive:
  assumes "0 < k"
  shows "Max (set (map (\<lambda>i. m + int i) [0..<k])) = m + int k - 1"
proof (rule Max_eqI)
  show "finite (set (map (\<lambda>i. m + int i) [0..<k]))" by simp
  show "y \<le> m + int k - 1" if "y \<in> set (map (\<lambda>i. m + int i) [0..<k])" for y
    using that by auto
  have eq: "m + int k - 1 = m + int (k - 1)" using assms by simp
  have "k - 1 \<in> {0..<k}" using assms by simp
  then have "m + int (k - 1) \<in> (\<lambda>i. m + int i) ` {0..<k}" by (rule imageI)
  then show "m + int k - 1 \<in> set (map (\<lambda>i. m + int i) [0..<k])"
    unfolding eq by simp
qed

lemma slice_step: "slice u (s + a * i) (s + a * (i + 1)) = take a (drop (s + a * i) u)"
  by (simp add: slice_def)

lemma concat_steps:
  "concat (map (\<lambda>i. take a (drop (s + a * i) u)) [0..<t]) = take (a * t) (drop s u)"
proof (induction t)
  case 0
  then show ?case by simp
next
  case (Suc t)
  have "take (a * t + a) (drop s u) = take (a * t) (drop s u) @ take a (drop (a * t) (drop s u))"
    by (rule take_add)
  then show ?case using Suc by (simp add: add.commute)
qed

lemma concat_slices:
  "concat (map (\<lambda>i. slice u (s + a * i) (s + a * (i + 1))) [0..<t]) = take (a * t) (drop s u)"
  unfolding slice_step by (rule concat_steps)

lemma concat_classes:
  "concat (take s u # map (\<lambda>i. slice u (s + a * i) (s + a * (i + 1))) [0..<t])
     = take (s + a * t) u"
  by (simp only: concat.simps concat_slices take_add)

lemma concat_extend_last:
  "bs \<noteq> [] \<Longrightarrow> concat (butlast bs @ [last bs @ x]) = concat bs @ x"
  by (induction bs) auto

lemma distinct_concat_disjoint:
  "distinct (concat bs) \<Longrightarrow> i < j \<Longrightarrow> j < length bs \<Longrightarrow> set (bs ! i) \<inter> set (bs ! j) = {}"
proof (induction bs arbitrary: i j)
  case Nil
  then show ?case by simp
next
  case (Cons b bs)
  show ?case
  proof (cases i)
    case 0
    then obtain j' where j': "j = Suc j'" "j' < length bs" using Cons.prems by (cases j) auto
    then have "bs ! j' \<in> set bs" by simp
    then have "set (bs ! j') \<subseteq> set (concat bs)" by auto
    then show ?thesis using Cons.prems(1) 0 j' by auto
  next
    case (Suc i')
    then obtain j' where j': "j = Suc j'" "j' < length bs" "i' < j'" using Cons.prems by (cases j) auto
    then show ?thesis using Cons.IH[of i' j'] Cons.prems(1) Suc by simp
  qed
qed

lemma return_label_batches_consecutive:
  fixes m :: int
  assumes u: "unique labels = map (\<lambda>i. m + int i) [0..<n]"
      and s1: "1 \<le> s" and sn: "s \<le> n" and a: "1 \<le> a"
  defines "t \<equiv> (if s < n then (n - s) div a else 1)"
  defines "classes \<equiv> take s (unique labels) #
             map (\<lambda>i. slice (unique labels) (s + a * i) (s + a * (i + 1))) [0..<t]"
  shows "return_label_batches s a labels =
           Inr (if s + a * t < n
                then butlast classes @ [last classes @ drop (s + a * t) (unique labels)]
                else classes)"
proof -
  let ?u = "unique labels"
  define K where "K = min (s + a * t) n"
  have len: "length ?u = n" by (simp add: u)
  have K1: "0 < K" "K \<le> n" using s1 sn by (simp_all add: K_def)
  have cond: "(1 \<le> int n - int s) = (s < n)" by linarith
  have tdef: "(if 1 \<le> int (length ?u) - int s then (length ?u - s) div a else 1) = t"
    unfolding len cond t_def by (rule refl)
  have cc: "concat classes = map (\<lambda>i. m + int i) [0..<K]"
  proof -
    have "concat classes = take (s + a * t) ?u" unfolding classes_def by (rule concat_classes)
    also have "\<dots> = take K ?u" by (simp add: K_def len min_def)
    also have "\<dots> = map (\<lambda>i. m + int i) [0..<K]" unfolding u by (rule take_consecutive[OF K1(2)])
    finally show ?thesis .
  qed
  have covered: "tmax (concat classes) = Inr (m + int K - 1)"
    using K1 by (simp add: cc tmax_Max Max_consecutive del: set_map)
  have "set labels \<noteq> {}" using set_unique[of labels] u K1 by auto
  then have ne: "labels \<noteq> []" by auto
  have "Max (set labels) = Max (set (map (\<lambda>i. m + int i) [0..<n]))"
    using set_unique[of labels] u by simp
  also have "\<dots> = m + int n - 1" using K1 by (intro Max_consecutive) simp
  finally have highest: "tmax labels = Inr (m + int n - 1)" by (simp add: tmax_Max[OF ne])
  have lt: "(m + int K - 1 < m + int n - 1) = (s + a * t < n)" using sn by (auto simp: K_def)
  have missing: "last_n ?u (nat ((m + int n - 1) - (m + int K - 1))) = drop (s + a * t) ?u"
    if h: "s + a * t < n"
  proof -
    have K: "K = s + a * t" using h by (simp add: K_def)
    have "(m + int n - 1) - (m + int K - 1) = int (n - K)" using K1 by simp
    then have "nat ((m + int n - 1) - (m + int K - 1)) = nat (int (n - K))"
      by (rule arg_cong)
    then have e1: "nat ((m + int n - 1) - (m + int K - 1)) = n - K" by (simp only: nat_int)
    have e2: "n - (n - K) = K" using K1 by simp
    have "last_n ?u (nat ((m + int n - 1) - (m + int K - 1))) = drop K ?u"
      by (simp only: last_n_def len e1 e2)
    then show ?thesis by (simp only: K)
  qed
  have a0: "a \<noteq> 0" using a by simp
  have eq_classes: "[take s ?u] @
      map (\<lambda>i. slice ?u (s + a * i) (s + a * (i + 1))) [0..<t] = classes"
    unfolding classes_def by (rule append_Cons[of _ "[]", unfolded append_Nil])
  have body: "(case tmax (concat classes) of
                 Inl e \<Rightarrow> Inl e
               | Inr covered \<Rightarrow>
                   (case tmax labels of
                      Inl e \<Rightarrow> Inl e
                    | Inr highest \<Rightarrow>
                        if covered < highest
                        then Inr (butlast classes @
                                  [last classes @ last_n ?u (nat (highest - covered))])
                        else Inr classes))
              = Inr (if s + a * t < n
                then butlast classes @ [last classes @ drop (s + a * t) ?u]
                else classes)"
    unfolding covered highest sum.case lt using missing by simp
  show ?thesis
    unfolding return_label_batches_def Let_def tdef eq_classes body
    using a0 by simp
qed

lemma return_label_batches_concat:
  fixes m :: int
  assumes labels: "set batch_labels = {m..<m + int n}"
      and s1: "1 \<le> s" and sn: "s \<le> n" and a: "1 \<le> a"
      and res: "return_label_batches s a batch_labels = Inr bs"
  shows "concat bs = unique batch_labels"
proof -
  let ?u = "unique batch_labels"
  define t where "t = (if s < n then (n - s) div a else 1)"
  define classes where
    "classes = take s ?u # map (\<lambda>i. slice ?u (s + a * i) (s + a * (i + 1))) [0..<t]"
  have u: "?u = map (\<lambda>i. m + int i) [0..<n]" by (rule unique_consecutive[OF labels])
  have len: "length ?u = n" by (simp add: u)
  have bs: "bs = (if s + a * t < n
                then butlast classes @ [last classes @ drop (s + a * t) ?u]
                else classes)"
    using return_label_batches_consecutive[OF u s1 sn a] res
    unfolding classes_def t_def by simp
  have ne: "classes \<noteq> []" by (simp add: classes_def)
  have cc: "concat classes = take (s + a * t) ?u"
    unfolding classes_def by (rule concat_classes)
  show ?thesis
  proof (cases "s + a * t < n")
    case True
    then have "bs = butlast classes @ [last classes @ drop (s + a * t) ?u]"
      by (simp add: bs)
    then have "concat bs = concat classes @ drop (s + a * t) ?u"
      by (simp only: concat_extend_last[OF ne])
    then show ?thesis by (simp add: cc)
  next
    case False
    then have "n \<le> s + a * t" by simp
    then show ?thesis using False by (simp add: bs cc len)
  qed
qed

text \<open>
  Claim C1, as amended. For a label tensor whose distinct values are \<open>n\<close> consecutive
  integers (as they are after \<open>return_random_labels\<close>), with
  \<open>1 \<le> n_classes_start \<le> n\<close> and \<open>1 \<le> n_class_additions\<close>,
  \<open>return_label_batches\<close> returns an ordered partition of the unique labels: the batches
  concatenated are the sorted unique labels, their union is the class set, and they are
  pairwise disjoint. The first batch has exactly \<open>n_classes_start\<close> classes when
  \<open>n = n_classes_start\<close> or at least one full group of additions exists; in that second
  case there are \<open>1 + (n - n_classes_start) div n_class_additions\<close> batches, the inner ones
  of \<open>n_class_additions\<close> classes, and the remainder classes are appended to the last one.
  When fewer than \<open>n_class_additions\<close> classes follow the first \<open>n_classes_start\<close>, the
  only batch holds all \<open>n\<close> classes; when \<open>n = n_classes_start\<close>, the batch of all
  classes is followed by an empty one.
\<close>

theorem return_label_batches_partition:
  fixes m :: int
  assumes labels: "set batch_labels = {m..<m + int n}"
      and s1: "1 \<le> s" and sn: "s \<le> n" and a: "1 \<le> a"
  shows "\<exists>bs. return_label_batches s a batch_labels = Inr bs
     \<and> concat bs = unique batch_labels
     \<and> \<Union> (set ` set bs) = set batch_labels
     \<and> (\<forall>i j. i < j \<and> j < length bs \<longrightarrow> set (bs ! i) \<inter> set (bs ! j) = {})
     \<and> (n = s \<or> a \<le> n - s \<longrightarrow> length (hd bs) = s)
     \<and> (s < n \<and> a \<le> n - s \<longrightarrow>
           length bs = 1 + (n - s) div a
         \<and> (\<forall>i. 0 < i \<and> i < (n - s) div a \<longrightarrow> length (bs ! i) = a)
         \<and> length (last bs) = a + (n - s) mod a)
     \<and> (s < n \<and> n - s < a \<longrightarrow> bs = [unique batch_labels])
     \<and> (n = s \<longrightarrow> bs = [unique batch_labels, []])"
proof -
  let ?u = "unique batch_labels"
  define t where "t = (if s < n then (n - s) div a else 1)"
  define sl where "sl i = slice ?u (s + a * i) (s + a * (i + 1))" for i
  define classes where "classes = take s ?u # map sl [0..<t]"
  define bs where "bs = (if s + a * t < n
                then butlast classes @ [last classes @ drop (s + a * t) ?u]
                else classes)"
  have u: "?u = map (\<lambda>i. m + int i) [0..<n]" by (rule unique_consecutive[OF labels])
  have len: "length ?u = n" by (simp add: u)
  have res: "return_label_batches s a batch_labels = Inr bs"
    using return_label_batches_consecutive[OF u s1 sn a]
    unfolding bs_def classes_def t_def sl_def .
  have ne: "classes \<noteq> []" by (simp add: classes_def)
  have cc: "concat classes = take (s + a * t) ?u"
    unfolding classes_def sl_def by (rule concat_classes)
  have tn: "s < n \<Longrightarrow> s + a * t \<le> n"
  proof -
    assume h: "s < n"
    have "a * ((n - s) div a) \<le> n - s" by simp
    then have "s + a * ((n - s) div a) \<le> n" using h by linarith
    then show ?thesis using h by (simp add: t_def)
  qed
  have cb: "concat bs = ?u"
    by (rule return_label_batches_concat[OF labels s1 sn a res])
  have un: "\<Union> (set ` set bs) = set batch_labels"
    using arg_cong[OF cb, of set] by (simp add: set_unique)
  have dj: "\<forall>i j. i < j \<and> j < length bs \<longrightarrow> set (bs ! i) \<inter> set (bs ! j) = {}"
    using distinct_concat_disjoint[of bs] distinct_unique[of batch_labels] by (simp add: cb)
  have lbs: "length bs = 1 + t" by (simp add: bs_def classes_def)
  have lsl: "length (sl i) = a" if "i < t" "s < n" for i
  proof -
    have "i + 1 \<le> t" using that(1) by simp
    then have "a * (i + 1) \<le> a * t" by (rule mult_le_mono2)
    then have "s + a * (i + 1) \<le> n" using tn[OF that(2)] by linarith
    then show ?thesis by (simp add: sl_def slice_def len)
  qed
  have hd_bs: "length (hd bs) = s" if "1 \<le> t"
  proof -
    have "map sl [0..<t] \<noteq> []" using that by simp
    then have "hd bs = take s ?u" by (auto simp: bs_def classes_def hd_append butlast.simps(2))
    then show ?thesis using sn by (simp add: len)
  qed
  have first: "n = s \<or> a \<le> n - s \<longrightarrow> length (hd bs) = s"
  proof
    assume h: "n = s \<or> a \<le> n - s"
    have "1 \<le> t"
    proof (cases "s < n")
      case True
      then have "a \<le> n - s" using h by simp
      then have "1 \<le> (n - s) div a" using a by (simp add: Suc_le_eq div_greater_zero_iff)
      then show ?thesis using True by (simp add: t_def)
    next
      case False
      then show ?thesis by (simp add: t_def)
    qed
    then show "length (hd bs) = s" by (rule hd_bs)
  qed
  have rest: "length bs = 1 + (n - s) div a
         \<and> (\<forall>i. 0 < i \<and> i < (n - s) div a \<longrightarrow> length (bs ! i) = a)
         \<and> length (last bs) = a + (n - s) mod a" if h: "s < n" "a \<le> n - s"
  proof -
    have t: "t = (n - s) div a" using h by (simp add: t_def)
    have t1: "1 \<le> t" using h a by (simp add: t Suc_le_eq div_greater_zero_iff)
    have lc: "last classes = sl (t - 1)"
      using t1 by (simp add: classes_def last_map)
    have llc: "length (last classes) = a" unfolding lc using t1 h by (intro lsl) simp_all
    have split: "n - s = a * t + (n - s) mod a" by (simp add: t)
    have mid: "length (bs ! i) = a" if i: "0 < i" "i < t" for i
    proof -
      have "i < length (butlast classes)" using i by (simp add: classes_def)
      then have "bs ! i = classes ! i"
        by (simp add: bs_def nth_append nth_butlast)
      also have "\<dots> = sl (i - 1)" using i by (cases i) (simp_all add: classes_def)
      finally show ?thesis using i h by (simp add: lsl)
    qed
    have lst: "length (last bs) = a + (n - s) mod a"
    proof (cases "s + a * t < n")
      case True
      then have "length (last bs) = a + (n - (s + a * t))" by (simp add: bs_def llc len)
      then show ?thesis using split True by linarith
    next
      case False
      then have "s + a * t = n" using tn[OF h(1)] by simp
      then have "(n - s) mod a = 0" using split by linarith
      then show ?thesis using False by (simp add: bs_def llc)
    qed
    show ?thesis using lbs mid lst by (simp add: t)
  qed
  have single: "bs = [?u]" if h: "s < n" "n - s < a"
  proof -
    have t: "t = 0" using h by (simp add: t_def)
    have "take s ?u @ drop s ?u = ?u" by simp
    then show ?thesis using h by (simp add: bs_def classes_def t)
  qed
  have trailing: "bs = [?u, []]" if h: "n = s"
  proof -
    have t: "t = 1" using h by (simp add: t_def)
    have "sl 0 = []" using h by (simp add: sl_def slice_def len)
    moreover have "take s ?u = ?u" using h by (simp add: len)
    ultimately show ?thesis using h a by (simp add: bs_def classes_def t)
  qed
  show ?thesis
    using res cb un dj first rest single trailing by blast
qed

theorem return_label_batches_partition_witness:
  "set [0, 0, 1, 1, 2, 2, 3, 3 :: int] = {0..<0 + int 4}
   \<and> (1::nat) \<le> 2 \<and> (2::nat) \<le> 4 \<and> (1::nat) \<le> 1 \<and> (1::nat) \<le> 3
   \<and> (\<exists>bs. return_label_batches 2 1 [0, 0, 1, 1, 2, 2, 3, 3] = Inr bs
     \<and> concat bs = unique [0, 0, 1, 1, 2, 2, 3, 3]
     \<and> \<Union> (set ` set bs) = set [0, 0, 1, 1, 2, 2, 3, 3]
     \<and> (\<forall>i j. i < j \<and> j < length bs \<longrightarrow> set (bs ! i) \<inter> set (bs ! j) = {})
     \<and> (4 = (2::nat) \<or> (1::nat) \<le> 4 - 2 \<longrightarrow> length (hd bs) = 2)
     \<and> ((2::nat) < 4 \<and> (1::nat) \<le> 4 - 2 \<longrightarrow>
           length bs = 1 + (4 - 2) div 1
         \<and> (\<forall>i. 0 < i \<and> i < (4 - 2) div 1 \<longrightarrow> length (bs ! i) = 1)
         \<and> length (last bs) = 1 + (4 - 2) mod 1))
   \<and> return_label_batches 2 3 [0, 0, 1, 1, 2, 2, 3, 3] = Inr [unique [0, 0, 1, 1, 2, 2, 3, 3]]"
proof -
  have h1: "set [0, 0, 1, 1, 2, 2, 3, 3 :: int] = {0..<0 + int 4}" by auto
  have h2: "(1::nat) \<le> 2" and h3: "(2::nat) \<le> 4" and h4: "(1::nat) \<le> 1"
    and h5: "(1::nat) \<le> 3" by simp_all
  have c1: "\<exists>bs. return_label_batches 2 1 [0, 0, 1, 1, 2, 2, 3, 3] = Inr bs
     \<and> concat bs = unique [0, 0, 1, 1, 2, 2, 3, 3]
     \<and> \<Union> (set ` set bs) = set [0, 0, 1, 1, 2, 2, 3, 3]
     \<and> (\<forall>i j. i < j \<and> j < length bs \<longrightarrow> set (bs ! i) \<inter> set (bs ! j) = {})
     \<and> (4 = (2::nat) \<or> (1::nat) \<le> 4 - 2 \<longrightarrow> length (hd bs) = 2)
     \<and> ((2::nat) < 4 \<and> (1::nat) \<le> 4 - 2 \<longrightarrow>
           length bs = 1 + (4 - 2) div 1
         \<and> (\<forall>i. 0 < i \<and> i < (4 - 2) div 1 \<longrightarrow> length (bs ! i) = 1)
         \<and> length (last bs) = 1 + (4 - 2) mod 1)"
    using return_label_batches_partition[OF h1 h2 h3 h4] by blast
  have "(2::nat) < 4 \<and> (4::nat) - 2 < 3" by simp
  then have c2: "return_label_batches 2 3 [0, 0, 1, 1, 2, 2, 3, 3]
                   = Inr [unique [0, 0, 1, 1, 2, 2, 3, 3]]"
    using return_label_batches_partition[OF h1 h2 h3 h5] by auto
  show ?thesis using h1 h2 h3 h4 h5 c1 c2 by blast
qed

text \<open>
  Claim C1, as stated, fails in two ways. The number of missing classes is taken from the
  difference of label values, so with a gap in the labels the last batch repeats classes of
  the batches before it; and when fewer than \<open>n_class_additions\<close> classes remain after
  the first batch, the first batch is also the last one and receives the remainder.
\<close>

theorem return_label_batches_counterexample:
  "return_label_batches 2 2 [0, 1, 2, 3, 10] = Inr [[0, 1], [2, 3, 0, 1, 2, 3, 10]]
   \<and> return_label_batches 2 3 [0, 1, 2, 3] = Inr [[0, 1, 2, 3]]"
  by code_simp

subsection \<open>An episode with exactly \<open>n_classes_start\<close> classes\<close>

lemma return_random_labels_same_set:
  assumes ok: "return_random_labels perm batch_labels = Inr out"
      and perm: "mset perm = mset [0..<length (unique batch_labels)]"
  shows "set out = set batch_labels"
proof -
  have eq: "set batch_labels = int ` {0..<length (unique batch_labels)}"
    by (rule return_random_labels_range[OF ok perm])
  have "out = map (\<lambda>k. int (perm ! nat k)) batch_labels"
    using return_random_labels_explicit[OF eq perm] ok by simp
  then show ?thesis using relabelled_image[OF eq perm] by simp
qed

lemma return_label_batches_exact_start:
  assumes n: "length (unique batch_labels) = s" and a: "a \<noteq> 0" and ne: "batch_labels \<noteq> []"
  shows "return_label_batches s a batch_labels = Inr [unique batch_labels, []]"
proof -
  let ?u = "unique batch_labels"
  have une: "?u \<noteq> []" using ne set_unique[of batch_labels] by (metis set_empty)
  have "tmax ?u = Inr (Max (set batch_labels))" by (simp add: tmax_Max[OF une] set_unique)
  moreover have "tmax batch_labels = Inr (Max (set batch_labels))" by (rule tmax_Max[OF ne])
  ultimately show ?thesis
    using a n by (simp add: return_label_batches_def Let_def slice_def)
qed

lemma return_label_batches_no_labels: "isl (return_label_batches s a [])"
  by (simp add: return_label_batches_def Let_def unique_def slice_def tmax_def)

lemma isl_bind_err: "isl (bind_err m f) \<longleftrightarrow> isl m \<or> (\<exists>x. m = Inr x \<and> isl (f x))"
  by (cases m) simp_all

lemma iteration_split_empty: "iteration_split inputs labels [] = Inl RuntimeError"
  by (simp add: iteration_split_def return_indexes_empty)

lemma FSCL_inner_loops_empty_batch:
  "FSCL_inner_loops C self inputs labels i ([] # rest) st = Inl RuntimeError"
  by (simp add: iteration_split_empty)

lemma OML_inner_loops_empty_batch:
  "OML_inner_loops C self inputs labels i ([] # rest) st = Inl RuntimeError"
  by (simp add: iteration_split_empty Let_def)

lemma bind_err_raises: "(\<And>x. isl (f x)) \<Longrightarrow> isl (bind_err m f)"
  by (cases m) simp_all

lemma OML_inner_loops_trailing_empty:
  "isl (OML_inner_loops C self inputs labels i [b, []] st)"
  by (simp add: Let_def split_def iteration_split_empty) (intro bind_err_raises, simp)

lemma FSCL_episode_exact_start_raises:
  assumes n: "length (unique labels0) = n_classes_start self"
      and perm: "mset perm = mset [0..<length (unique labels0)]"
  shows "isl (FSCL_episode C perm self inputs labels0)"
proof (cases "return_random_labels perm labels0")
  case (Inl e)
  then show ?thesis by (simp add: FSCL_episode_def)
next
  case (Inr labels)
  have "set labels = set labels0" by (rule return_random_labels_same_set[OF Inr perm])
  then have u: "unique labels = unique labels0" by (rule unique_eq_iff_set)
  show ?thesis
  proof (cases "n_class_additions self = 0 \<or> labels = []")
    case True
    then have "isl (return_label_batches (n_classes_start self) (n_class_additions self) labels)"
      by (auto simp: return_label_batches_no_labels) (simp add: return_label_batches_def Let_def)
    then show ?thesis by (simp add: FSCL_episode_def Inr Let_def isl_bind_err)
  next
    case False
    then have "return_label_batches (n_classes_start self) (n_class_additions self) labels
                 = Inr [unique labels, []]"
      using n u by (intro return_label_batches_exact_start) simp_all
    then show ?thesis
      by (simp add: FSCL_episode_def Inr Let_def split_def iteration_split_empty)
         (intro bind_err_raises, simp)
  qed
qed

lemma OML_episode_exact_start_raises:
  assumes n: "length (unique labels0) = n_classes_start self"
      and perm: "mset perm = mset [0..<length (unique labels0)]"
  shows "isl (OML_episode C perm self inputs labels0)"
proof (cases "return_random_labels perm labels0")
  case (Inl e)
  then show ?thesis by (simp add: OML_episode_def)
next
  case (Inr labels)
  have "set labels = set labels0" by (rule return_random_labels_same_set[OF Inr perm])
  then have u: "unique labels = unique labels0" by (rule unique_eq_iff_set)
  show ?thesis
  proof (cases "n_class_additions self = 0 \<or> labels = []")
    case True
    then have "isl (return_label_batches (n_classes_start self) (n_class_additions self) labels)"
      by (auto simp: return_label_batches_no_labels) (simp add: return_label_batches_def Let_def)
    then show ?thesis by (simp add: OML_episode_def Inr Let_def isl_bind_err)
  next
    case False
    then have "return_label_batches (n_classes_start self) (n_class_additions self) labels
                 = Inr [unique labels, []]"
      using n u by (intro return_label_batches_exact_start) simp_all
    then show ?thesis
      using OML_inner_loops_trailing_empty[of C self inputs labels 0 "unique labels"]
      by (simp add: OML_episode_def Inr Let_def isl_bind_err del: OML_inner_loops.simps)
  qed
qed

text \<open>
  Claim C9. When the number of unique classes equals \<open>n_classes_start\<close>, the class
  batches are the unique labels followed by an empty batch (for a non-empty label tensor and a
  non-zero \<open>n_class_additions\<close>), \<open>return_indexes\<close> raises on an empty class batch,
  and \<open>FSCL.meta_learn\<close> and \<open>OML.meta_learn\<close> raise, whatever the collaborators and
  the permutation drawn.
\<close>

theorem exact_start_count_raises:
  assumes n: "length (unique (map snd batch)) = n_classes_start self"
      and perm: "mset perm = mset [0..<length (unique (map snd batch))]"
  shows "(\<forall>labels. length (unique labels) = n_classes_start self
              \<and> n_class_additions self \<noteq> 0 \<and> labels \<noteq> [] \<longrightarrow>
            return_label_batches (n_classes_start self) (n_class_additions self) labels
              = Inr [unique labels, []])
       \<and> (\<forall>labels. return_indexes labels [] = Inl RuntimeError)
       \<and> (\<exists>e. snd (FSCL_meta_learn C perm self batch) = Inl e)
       \<and> (\<exists>e. snd (OML_meta_learn C' perm self batch) = Inl e)"
proof -
  have "isl (FSCL_episode C perm self (map fst batch) (map snd batch))"
    by (rule FSCL_episode_exact_start_raises[OF n perm])
  then have fscl: "\<exists>e. snd (FSCL_meta_learn C perm self batch) = Inl e"
    by (auto simp: FSCL_meta_learn_def isl_def)
  have "isl (OML_episode C' perm self (map fst batch) (map snd batch))"
    by (rule OML_episode_exact_start_raises[OF n perm])
  then have oml: "\<exists>e. snd (OML_meta_learn C' perm self batch) = Inl e"
    by (auto simp: OML_meta_learn_def isl_def)
  show ?thesis
    using fscl oml return_label_batches_exact_start return_indexes_empty by blast
qed

theorem exact_start_count_raises_witness:
  "length (unique (map snd [(0::nat, 0), (1, 0), (2, 1), (3, 1)])) = 2
   \<and> mset [1, 0] = mset [0..<length (unique (map snd [(0::nat, 0), (1, 0), (2, 1), (3, 1)]))]
   \<and> return_label_batches 2 1 [0, 0, 1, 1] = Inr [[0, 1], []]
   \<and> return_indexes [0, 0, 1, 1] [] = Inl RuntimeError
   \<and> (\<exists>e. snd (FSCL_meta_learn (FSCL_test_collaborators 4) [1, 0]
                \<lparr>cl_model = 0, n_classes_start = 2, n_class_additions = 1, training_steps = 1,
                 initial_training_steps = 1, quick_adapt = True, k_shot = 1\<rparr>
                [(0, 0), (1, 0), (2, 1), (3, 1)]) = Inl e)
   \<and> (\<exists>e. snd (OML_meta_learn (OML_test_collaborators 4) [1, 0]
                \<lparr>cl_model = 0, n_classes_start = 2, n_class_additions = 1, training_steps = 1,
                 initial_training_steps = 1, quick_adapt = True, k_shot = 1\<rparr>
                [(0, 0), (1, 0), (2, 1), (3, 1)]) = Inl e)"
proof -
  let ?self = "\<lparr>cl_model = 0::nat, n_classes_start = 2, n_class_additions = 1,
                 training_steps = 1, initial_training_steps = 1, quick_adapt = True,
                 k_shot = 1\<rparr>"
  let ?batch = "[(0::nat, 0::int), (1, 0), (2, 1), (3, 1)]"
  have u': "unique [0, 0, 1, 1] = [0, 1]" by (simp add: unique_def)
  have h1: "length (unique (map snd ?batch)) = n_classes_start ?self" by (simp add: u')
  have h2: "mset [1, 0] = mset [0..<length (unique (map snd ?batch))]"
    by (simp add: u' numeral_2_eq_2)
  show ?thesis
    using exact_start_count_raises[OF h1 h2, of "FSCL_test_collaborators 4" "OML_test_collaborators 4"]
      h1 h2
    by (simp add: u')
qed

subsection \<open>The head size across an episode\<close>





lemma final_evaluation_success:
  assumes "final_evaluation C st args = Inr r"
  shows "head_trace r = heads st \<and> eval_args r = args
       \<and> (\<exists>all_inputs all_labels idx out.
              cat (query_inputs st) = Inr all_inputs
            \<and> cat (query_labels st) = Inr all_labels
            \<and> testing_indexes all_labels = Inr idx
            \<and> eval_inputs r = gather all_inputs idx
            \<and> eval_labels r = gather all_labels idx
            \<and> forward C (set_mode C False (learner st)) (gather all_inputs idx) args = Inr out)"
  using assms by (auto simp: final_evaluation_def Let_def bind_err_Inr_iff)

lemma FSCL_quick_adapt_keeps:
  assumes "FSCL_quick_adapt C self st = Inr st'"
  shows "heads st' = heads st \<and> total_classes_present st' = total_classes_present st
       \<and> query_inputs st' = query_inputs st \<and> query_labels st' = query_labels st"
  using assms by (auto simp: FSCL_quick_adapt_def bind_err_Inr_iff split: if_splits)

lemma FSCL_episode_success:
  assumes "FSCL_episode C perm self inputs labels0 = Inr r"
  shows "\<exists>labels first others si sl qi ql learner' output' acc quick_inputs quick_labels st st2.
      return_random_labels perm labels0 = Inr labels
    \<and> return_label_batches (n_classes_start self) (n_class_additions self) labels
          = Inr (first # others)
    \<and> iteration_split inputs labels first = Inr (si, sl, qi, ql)
    \<and> FSCL_inner_loops C self inputs labels 0 others
          \<lparr>learner = learner', last_output = output', total_classes_present = length first,
           query_inputs = [qi], query_labels = [ql],
           quick_update_inputs = [quick_inputs], quick_update_labels = [quick_labels],
           logging = [(step_inner_accuracy 0, Accuracy acc)], heads = [length first]\<rparr> = Inr st
    \<and> FSCL_quick_adapt C self st = Inr st2
    \<and> final_evaluation C st2 (Heads (total_classes_present st2)) = Inr r"
proof -
  let ?rest = "\<lambda>labels class_batches.
     (case class_batches of
            [] \<Rightarrow> Inl IndexError
          | first # others \<Rightarrow>
              bind_err (iteration_split inputs labels first)
                (\<lambda>(support_input, support_labels, query_input, query_labels').
              bind_err (stride support_input (k_shot self)) (\<lambda>quick_inputs.
              bind_err (stride support_labels (k_shot self)) (\<lambda>quick_labels.
                let present = length first
                in bind_err (fast_train C (initial_training_steps self) support_input
                               support_labels (Heads present)
                               (set_mode C True (cl_model self), None))
                     (\<lambda>(learner', output').
                   bind_err (accuracy_of C output') (\<lambda>accuracy.
                   bind_err (FSCL_inner_loops C self inputs labels 0 others
                               \<lparr>learner = learner',
                                last_output = output',
                                total_classes_present = present,
                                query_inputs = [query_input],
                                query_labels = [query_labels'],
                                quick_update_inputs = [quick_inputs],
                                quick_update_labels = [quick_labels],
                                logging = [(step_inner_accuracy 0, Accuracy accuracy)],
                                heads = [present]\<rparr>) (\<lambda>st.
                   bind_err (FSCL_quick_adapt C self st) (\<lambda>st.
                     final_evaluation C st (Heads (total_classes_present st))))))))))"
  from assms obtain labels class_batches where
    l: "return_random_labels perm labels0 = Inr labels"
    and b: "return_label_batches (n_classes_start self) (n_class_additions self) labels
              = Inr class_batches"
    and rest: "?rest labels class_batches = Inr r"
    unfolding FSCL_episode_def Let_def bind_err_Inr_iff by blast
  from rest obtain first others where c: "class_batches = first # others"
    by (cases class_batches) simp_all
  from rest show ?thesis
    unfolding c list.case using l b[unfolded c]
    by (auto simp: Let_def bind_err_Inr_iff split: prod.splits) blast
qed

lemma OML_episode_success:
  assumes "OML_episode C perm self inputs labels0 = Inr r"
  shows "\<exists>labels class_batches st.
      return_random_labels perm labels0 = Inr labels
    \<and> return_label_batches (n_classes_start self) (n_class_additions self) labels
          = Inr class_batches
    \<and> OML_inner_loops C self inputs labels 0 class_batches
          \<lparr>learner = set_mode C True (cl_model self), last_output = None,
           total_classes_present = 0, query_inputs = [], query_labels = [],
           quick_update_inputs = [], quick_update_labels = [],
           logging = [], heads = []\<rparr> = Inr st
    \<and> final_evaluation C st (HeadsInner (total_classes_present st) False) = Inr r"
  using assms
  by (auto simp: OML_episode_def Let_def bind_err_Inr_iff)















subsection \<open>The final query evaluation\<close>

lemma return_label_batches_few_classes:
  assumes n: "length (unique batch_labels) \<le> s" and a: "a \<noteq> 0" and ne: "batch_labels \<noteq> []"
  shows "return_label_batches s a batch_labels = Inr [unique batch_labels, []]"
proof -
  let ?u = "unique batch_labels"
  have une: "?u \<noteq> []" using ne set_unique[of batch_labels] by (metis set_empty)
  have "tmax ?u = Inr (Max (set batch_labels))" by (simp add: tmax_Max[OF une] set_unique)
  moreover have "tmax batch_labels = Inr (Max (set batch_labels))" by (rule tmax_Max[OF ne])
  moreover have "\<not> 1 \<le> int (length ?u) - int s" using n by simp
  ultimately show ?thesis
    using a n by (simp add: return_label_batches_def Let_def slice_def)
qed

lemma return_label_batches_zero_start:
  assumes "return_label_batches 0 a batch_labels = Inr bs"
  shows "\<exists>rest. bs = [] # rest"
proof -
  let ?u = "unique batch_labels"
  define t where "t = (if 1 \<le> int (length ?u) - int 0 then (length ?u - 0) div a else 1)"
  define classes where
    "classes = [take 0 ?u] @ map (\<lambda>i. slice ?u (0 + a * i) (0 + a * (i + 1))) [0..<t]"
  have a: "a \<noteq> 0" using assms by (auto simp: return_label_batches_def Let_def split: if_splits)
  have c: "classes = [] # map (\<lambda>i. slice ?u (0 + a * i) (0 + a * (i + 1))) [0..<t]"
    by (simp add: classes_def)
  have bs: "bs = classes \<or> (\<exists>x. bs = butlast classes @ [last classes @ x])"
    using assms a unfolding return_label_batches_def Let_def t_def[symmetric] classes_def[symmetric]
    by (auto split: sum.splits if_splits)
  have t: "t \<noteq> 0"
  proof
    assume "t = 0"
    then have "concat classes = []" by (simp add: c)
    then have "tmax (concat classes) = Inl RuntimeError" by (simp only: tmax_empty)
    then show False
      using assms a unfolding return_label_batches_def Let_def t_def[symmetric] classes_def[symmetric]
      by simp
  qed
  then have "map (\<lambda>i. slice ?u (0 + a * i) (0 + a * (i + 1))) [0..<t] \<noteq> []" by simp
  then show ?thesis using bs unfolding c by (auto simp: butlast.simps(2))
qed

lemma gather_take: "gather t (take k idx) = take k (gather t idx)"
  by (simp add: gather_def take_map)

lemma testing_selection:
  assumes "testing_indexes t = Inr idx"
  shows "gather t idx = concat (map (\<lambda>c. replicate (min 5 (count_list t c)) c) (unique t))"
proof -
  have "idx = concat (map (\<lambda>c. take 5 (where_eq t c)) (unique t))"
    using assms by (auto simp: testing_indexes_def cat_def split: if_splits)
  then show ?thesis
    by (simp add: gather_concat comp_def gather_take gather_where_eq min.commute)
qed

lemma count_list_absent: "c \<notin> set t \<Longrightarrow> count_list t c = 0"
  by (induction t) auto

lemma count_testing_selection:
  "count_list (concat (map (\<lambda>c. replicate (min 5 (count_list t c)) c) (unique t))) c
     = min 5 (count_list t c)"
  by (simp add: count_runs[OF distinct_unique] set_unique count_list_absent)

lemma count_halves:
  "count_list (concat (map (\<lambda>c. replicate (count_list t c div 2) c) (unique t))) c
     = count_list t c div 2"
  by (simp add: count_runs[OF distinct_unique] set_unique count_list_absent)

lemma count_list_map_inj:
  "inj_on f (insert c (set xs)) \<Longrightarrow> count_list (map f xs) (f c) = count_list xs c"
proof (induction xs)
  case Nil
  then show ?case by simp
next
  case (Cons x xs)
  then have "inj_on f (insert c (set xs))" by (auto simp: inj_on_def)
  moreover have "f x = f c \<longleftrightarrow> x = c" using Cons.prems by (auto simp: inj_on_def)
  ultimately show ?case using Cons.IH by simp
qed

lemma relabel_inj_on:
  assumes labels: "set batch_labels = int ` {0..<n}"
      and perm: "mset perm = mset [0..<n]"
  shows "inj_on (\<lambda>k. int (perm ! nat k)) (set batch_labels)"
proof (rule inj_onI)
  fix a b
  assume a: "a \<in> set batch_labels" and b: "b \<in> set batch_labels"
    and eq: "int (perm ! nat a) = int (perm ! nat b)"
  have len: "length perm = n" using mset_eq_length[OF perm] by simp
  have dp: "distinct perm" using mset_eq_imp_distinct_iff[OF perm] by simp
  obtain i j where ij: "i < n" "a = int i" "j < n" "b = int j" using a b labels by auto
  have "perm ! i = perm ! j \<longleftrightarrow> i = j"
    using dp ij len by (simp add: nth_eq_iff_index_eq)
  then show "a = b" using ij eq by simp
qed

lemma even_counts_relabelled:
  assumes ok: "return_random_labels perm labels0 = Inr labels"
      and perm: "mset perm = mset [0..<length (unique labels0)]"
      and ev: "\<forall>c\<in>set labels0. even (count_list labels0 c)"
  shows "\<forall>c\<in>set labels. even (count_list labels c)"
proof
  fix c assume c: "c \<in> set labels"
  let ?f = "\<lambda>k. int (perm ! nat k)"
  have eq: "set labels0 = int ` {0..<length (unique labels0)}"
    by (rule return_random_labels_range[OF ok perm])
  have l: "labels = map ?f labels0"
    using return_random_labels_explicit[OF eq perm] ok by simp
  from c obtain c0 where c0: "c0 \<in> set labels0" "c = ?f c0" unfolding l by auto
  have "inj_on ?f (insert c0 (set labels0))"
    using relabel_inj_on[OF eq perm] c0(1) by (simp add: insert_absorb)
  then have "count_list labels c = count_list labels0 c0"
    unfolding l c0(2) by (rule count_list_map_inj)
  then show "even (count_list labels c)" using ev c0(1) by simp
qed

lemma iteration_split_query_labels:
  assumes ok: "iteration_split inputs labels b = Inr (si, sl, qi, ql)"
      and ev: "\<forall>c\<in>set b. even (count_list labels c)"
  shows "ql = concat (map (\<lambda>c. replicate (count_list labels c div 2) c) b)"
proof -
  show ?thesis
    using iteration_split_success[OF ok ev] support_query_labels(2)[OF ev] by simp
qed

lemma FSCL_inner_loops_queries:
  assumes "FSCL_inner_loops C self inputs labels i bs st = Inr st'"
      and "\<forall>c\<in>set (concat bs). even (count_list labels c)"
  shows "concat (query_labels st') = concat (query_labels st) @
           concat (map (\<lambda>c. replicate (count_list labels c div 2) c) (concat bs))"
  using assms
proof (induction bs arbitrary: i st)
  case Nil
  then show ?case by simp
next
  case (Cons b rest)
  from Cons.prems(1) obtain si sl qi ql st1 where
    sp: "iteration_split inputs labels b = Inr (si, sl, qi, ql)"
    and run: "FSCL_inner_loops C self inputs labels (i + 1) rest st1 = Inr st'"
    and q1: "query_labels st1 = query_labels st @ [ql]"
    by (auto simp: bind_err_Inr_iff Let_def split: prod.splits)
  have evb: "\<forall>c\<in>set b. even (count_list labels c)" using Cons.prems(2) by simp
  have evr: "\<forall>c\<in>set (concat rest). even (count_list labels c)" using Cons.prems(2) by simp
  have ql: "ql = concat (map (\<lambda>c. replicate (count_list labels c div 2) c) b)"
    by (rule iteration_split_query_labels[OF sp evb])
  show ?case using Cons.IH[OF run evr] by (simp add: q1 ql)
qed

lemma OML_inner_loops_queries:
  assumes "OML_inner_loops C self inputs labels i bs st = Inr st'"
      and "\<forall>c\<in>set (concat bs). even (count_list labels c)"
  shows "concat (query_labels st') = concat (query_labels st) @
           concat (map (\<lambda>c. replicate (count_list labels c div 2) c) (concat bs))"
  using assms
proof (induction bs arbitrary: i st)
  case Nil
  then show ?case by simp
next
  case (Cons b rest)
  from Cons.prems(1) obtain si sl qi ql st1 where
    sp: "iteration_split inputs labels b = Inr (si, sl, qi, ql)"
    and run: "OML_inner_loops C self inputs labels (i + 1) rest st1 = Inr st'"
    and q1: "query_labels st1 = query_labels st @ [ql]"
    by (auto simp: bind_err_Inr_iff Let_def split: prod.splits)
  have evb: "\<forall>c\<in>set b. even (count_list labels c)" using Cons.prems(2) by simp
  have evr: "\<forall>c\<in>set (concat rest). even (count_list labels c)" using Cons.prems(2) by simp
  have ql: "ql = concat (map (\<lambda>c. replicate (count_list labels c div 2) c) b)"
    by (rule iteration_split_query_labels[OF sp evb])
  show ?case using Cons.IH[OF run evr] by (simp add: q1 ql)
qed

lemma final_evaluation_counts:
  assumes final: "final_evaluation C st args = Inr r"
      and q: "concat (query_labels st)
                = concat (map (\<lambda>c. replicate (count_list labels c div 2) c) (unique labels))"
  shows "\<forall>c. count_list (eval_labels r) c = min 5 (count_list labels c div 2)"
proof
  fix c
  from final_evaluation_success[OF final] obtain all_labels idx where
    a: "cat (query_labels st) = Inr all_labels"
    and t: "testing_indexes all_labels = Inr idx"
    and e: "eval_labels r = gather all_labels idx"
    by blast
  have al: "all_labels = concat (query_labels st)"
    using a by (auto simp: cat_def split: if_splits)
  have "count_list (eval_labels r) c = min 5 (count_list all_labels c)"
    unfolding e testing_selection[OF t] by (rule count_testing_selection)
  also have "count_list all_labels c = count_list labels c div 2"
    unfolding al q by (rule count_halves)
  finally show "count_list (eval_labels r) c = min 5 (count_list labels c div 2)" .
qed

lemma evaluated_classes:
  assumes cnt: "\<forall>c. count_list e c = min 5 (count_list labels c div 2)"
      and ev: "\<forall>c\<in>set labels. even (count_list labels c)"
  shows "set e = set labels"
proof (intro set_eqI iffI)
  fix c assume "c \<in> set e"
  then have "count_list e c \<noteq> 0" by (simp add: count_list_0_iff)
  then have "count_list labels c \<noteq> 0" using cnt by auto
  then show "c \<in> set labels" by (simp add: count_list_0_iff)
next
  fix c assume c: "c \<in> set labels"
  then have "count_list labels c \<noteq> 0" by (simp add: count_list_0_iff)
  moreover have "even (count_list labels c)" using ev c by simp
  ultimately have "2 \<le> count_list labels c" by presburger
  then have "count_list labels c div 2 \<noteq> 0" by simp
  then have "count_list e c \<noteq> 0" using cnt by simp
  then show "c \<in> set e" by (simp add: count_list_0_iff)
qed

lemma int_image_interval: "int ` {0..<n} = {0..<0 + int n}"
  using image_int_atLeastLessThan[of 0 n] by simp

lemma odds_concat:
  "\<forall>xs\<in>set xss. even (length xs) \<Longrightarrow> odds (concat xss) = concat (map odds xss)"
  by (induction xss) (simp_all add: odds_append)

lemma query_indexes_of_batch:
  assumes "\<forall>c\<in>set b. even (count_list labels c)"
  shows "odds (concat (map (where_eq labels) b)) = concat (map (\<lambda>c. odds (where_eq labels c)) b)"
proof -
  have "\<forall>xs\<in>set (map (where_eq labels) b). even (length xs)"
    using assms by (simp add: length_where_eq)
  from odds_concat[OF this] show ?thesis by (simp add: comp_def)
qed

lemma iteration_split_query_rows:
  assumes ok: "iteration_split inputs labels b = Inr (si, sl, qi, ql)"
      and ev: "\<forall>c\<in>set b. even (count_list labels c)"
  shows "qi = gather inputs (concat (map (\<lambda>c. odds (where_eq labels c)) b))
       \<and> ql = gather labels (concat (map (\<lambda>c. odds (where_eq labels c)) b))"
  using iteration_split_success[OF ok ev] query_indexes_of_batch[OF ev] by simp

lemma FSCL_inner_loops_query_rows:
  assumes "FSCL_inner_loops C self inputs labels i bs st = Inr st'"
      and "\<forall>c\<in>set (concat bs). even (count_list labels c)"
  shows "concat (query_inputs st') = concat (query_inputs st) @
           gather inputs (concat (map (\<lambda>c. odds (where_eq labels c)) (concat bs)))
       \<and> concat (query_labels st') = concat (query_labels st) @
           gather labels (concat (map (\<lambda>c. odds (where_eq labels c)) (concat bs)))"
  using assms
proof (induction bs arbitrary: i st)
  case Nil
  then show ?case by (simp add: gather_def)
next
  case (Cons b rest)
  from Cons.prems(1) obtain si sl qi ql st1 where
    sp: "iteration_split inputs labels b = Inr (si, sl, qi, ql)"
    and run: "FSCL_inner_loops C self inputs labels (i + 1) rest st1 = Inr st'"
    and q1: "query_labels st1 = query_labels st @ [ql]"
    and q2: "query_inputs st1 = query_inputs st @ [qi]"
    by (auto simp: bind_err_Inr_iff Let_def split: prod.splits)
  have evb: "\<forall>c\<in>set b. even (count_list labels c)" using Cons.prems(2) by simp
  have evr: "\<forall>c\<in>set (concat rest). even (count_list labels c)" using Cons.prems(2) by simp
  note q = iteration_split_query_rows[OF sp evb]
  show ?case using Cons.IH[OF run evr] by (simp add: q1 q2 q gather_append)
qed

lemma OML_inner_loops_query_rows:
  assumes "OML_inner_loops C self inputs labels i bs st = Inr st'"
      and "\<forall>c\<in>set (concat bs). even (count_list labels c)"
  shows "concat (query_inputs st') = concat (query_inputs st) @
           gather inputs (concat (map (\<lambda>c. odds (where_eq labels c)) (concat bs)))
       \<and> concat (query_labels st') = concat (query_labels st) @
           gather labels (concat (map (\<lambda>c. odds (where_eq labels c)) (concat bs)))"
  using assms
proof (induction bs arbitrary: i st)
  case Nil
  then show ?case by (simp add: gather_def)
next
  case (Cons b rest)
  from Cons.prems(1) obtain si sl qi ql st1 where
    sp: "iteration_split inputs labels b = Inr (si, sl, qi, ql)"
    and run: "OML_inner_loops C self inputs labels (i + 1) rest st1 = Inr st'"
    and q1: "query_labels st1 = query_labels st @ [ql]"
    and q2: "query_inputs st1 = query_inputs st @ [qi]"
    by (auto simp: bind_err_Inr_iff Let_def split: prod.splits)
  have evb: "\<forall>c\<in>set b. even (count_list labels c)" using Cons.prems(2) by simp
  have evr: "\<forall>c\<in>set (concat rest). even (count_list labels c)" using Cons.prems(2) by simp
  note q = iteration_split_query_rows[OF sp evb]
  show ?case using Cons.IH[OF run evr] by (simp add: q1 q2 q gather_append)
qed

lemma gather_gather:
  "\<forall>i\<in>set T. i < length Q \<Longrightarrow> gather (gather xs Q) T = gather xs (gather Q T)"
  by (simp add: gather_def)

lemma gather_where_eq_gather:
  "gather Q (where_eq (gather t Q) c) = filter (\<lambda>i. t ! i = c) Q"
proof -
  have "filter (\<lambda>j. map (\<lambda>i. t ! i) Q ! j = c) [0..<length Q]
          = filter (\<lambda>j. t ! (Q ! j) = c) [0..<length Q]"
    by (rule filter_cong) simp_all
  then have "where_eq (gather t Q) c = filter (\<lambda>j. t ! (Q ! j) = c) [0..<length Q]"
    by (simp add: gather_def where_eq_def)
  then have "gather Q (where_eq (gather t Q) c)
               = map (\<lambda>j. Q ! j) (filter (\<lambda>j. t ! (Q ! j) = c) [0..<length Q])"
    by (simp add: gather_def)
  also have "\<dots> = filter (\<lambda>i. t ! i = c) (map (\<lambda>j. Q ! j) [0..<length Q])"
    by (simp add: filter_map comp_def)
  also have "\<dots> = filter (\<lambda>i. t ! i = c) Q" by (simp add: map_nth)
  finally show ?thesis .
qed

lemma filter_other_runs:
  assumes "c \<notin> set cs" and "\<forall>c'\<in>set cs. \<forall>i\<in>set (run c'). t ! i = c'"
  shows "filter (\<lambda>i. t ! i = c) (concat (map run cs)) = []"
  using assms by (auto simp: filter_empty_conv)

lemma filter_class_runs:
  assumes "distinct cs" and "c \<in> set cs" and "\<forall>c'\<in>set cs. \<forall>i\<in>set (run c'). t ! i = c'"
  shows "filter (\<lambda>i. t ! i = c) (concat (map run cs)) = run c"
  using assms
proof (induction cs)
  case Nil
  then show ?case by simp
next
  case (Cons a rest)
  have r: "\<forall>c'\<in>set rest. \<forall>i\<in>set (run c'). t ! i = c'" using Cons.prems(3) by simp
  show ?case
  proof (cases "a = c")
    case True
    then have "c \<notin> set rest" using Cons.prems(1) by simp
    then have "filter (\<lambda>i. t ! i = c) (concat (map run rest)) = []"
      using r by (rule filter_other_runs)
    moreover have "filter (\<lambda>i. t ! i = c) (run c) = run c"
      using Cons.prems(3) True by (simp add: filter_id_conv)
    ultimately show ?thesis using True by simp
  next
    case False
    then have c: "c \<in> set rest" using Cons.prems(2) by simp
    have "filter (\<lambda>i. t ! i = c) (run a) = []"
      using Cons.prems(3) False by (auto simp: filter_empty_conv)
    moreover have "filter (\<lambda>i. t ! i = c) (concat (map run rest)) = run c"
      using Cons.IH[OF _ c r] Cons.prems(1) by simp
    ultimately show ?thesis by simp
  qed
qed

lemma set_odds_subset: "set (odds xs) \<subseteq> set xs"
  using set_evens_odds[of xs] by auto

lemma query_rows_class: "i \<in> set (odds (where_eq t c)) \<Longrightarrow> i < length t \<and> t ! i = c"
  using set_odds_subset[of "where_eq t c"] where_eq_bound[of i t c] by auto

lemma testing_rows:
  assumes t: "testing_indexes (gather labels Q) = Inr idx"
      and Q: "Q = concat (map (\<lambda>c. odds (where_eq labels c)) (unique labels))"
      and u: "unique (gather labels Q) = unique labels"
  shows "gather Q idx = concat (map (\<lambda>c. take 5 (odds (where_eq labels c))) (unique labels))"
    and "\<forall>i\<in>set idx. i < length Q"
proof -
  have idx: "idx = concat (map (\<lambda>c. take 5 (where_eq (gather labels Q) c)) (unique labels))"
    using t unfolding testing_indexes_def u by (auto simp: cat_def split: if_splits)
  have run: "\<forall>c'\<in>set (unique labels). \<forall>i\<in>set (odds (where_eq labels c')). labels ! i = c'"
    using query_rows_class by blast
  have "gather Q idx
          = concat (map (\<lambda>c. take 5 (filter (\<lambda>i. labels ! i = c) Q)) (unique labels))"
    unfolding idx by (simp add: gather_concat comp_def gather_take gather_where_eq_gather)
  also have "\<dots> = concat (map (\<lambda>c. take 5 (odds (where_eq labels c))) (unique labels))"
  proof -
    have "filter (\<lambda>i. labels ! i = c) Q = odds (where_eq labels c)"
      if "c \<in> set (unique labels)" for c
      unfolding Q using distinct_unique that run by (rule filter_class_runs)
    then show ?thesis by (simp cong: map_cong)
  qed
  finally show "gather Q idx
       = concat (map (\<lambda>c. take 5 (odds (where_eq labels c))) (unique labels))" .
  show "\<forall>i\<in>set idx. i < length Q"
  proof
    fix i assume "i \<in> set idx"
    then obtain c where "i \<in> set (take 5 (where_eq (gather labels Q) c))"
      unfolding idx by auto
    then have "i \<in> set (where_eq (gather labels Q) c)" by (rule in_set_takeD)
    then have "i < length (gather labels Q)" using where_eq_bound by blast
    then show "i < length Q" by (simp add: gather_def)
  qed
qed

lemma query_labels_of_class:
  "even (count_list labels c) \<Longrightarrow>
   gather labels (odds (where_eq labels c)) = replicate (count_list labels c div 2) c"
proof -
  assume "even (count_list labels c)"
  then obtain k where k: "count_list labels c = 2 * k" by auto
  show ?thesis by (simp add: gather_odds gather_where_eq k odds_replicate)
qed

lemma query_labels_of_classes:
  assumes "\<forall>c\<in>set cs. even (count_list labels c)"
  shows "gather labels (concat (map (\<lambda>c. odds (where_eq labels c)) cs))
           = concat (map (\<lambda>c. replicate (count_list labels c div 2) c) cs)"
  using assms
proof (induction cs)
  case Nil
  then show ?case by (simp add: gather_def)
next
  case (Cons a cs)
  have "gather labels (odds (where_eq labels a)) = replicate (count_list labels a div 2) a"
    using Cons.prems by (intro query_labels_of_class) simp
  moreover have "gather labels (concat (map (\<lambda>c. odds (where_eq labels c)) cs))
           = concat (map (\<lambda>c. replicate (count_list labels c div 2) c) cs)"
    using Cons by simp
  ultimately show ?case by (simp add: gather_append)
qed

lemma halves_cover:
  assumes ev: "\<forall>c\<in>set labels. even (count_list labels c)"
  shows "set (concat (map (\<lambda>c. replicate (count_list labels c div 2) c) (unique labels)))
           = set labels"
proof -
  have "count_list labels c div 2 \<noteq> 0" if c: "c \<in> set labels" for c
  proof -
    have "count_list labels c \<noteq> 0" using c by (simp add: count_list_0_iff)
    moreover have "even (count_list labels c)" using ev c by simp
    ultimately have "2 \<le> count_list labels c" by presburger
    then show ?thesis by simp
  qed
  then show ?thesis by (auto simp: set_unique)
qed

lemma final_evaluation_calls:
  assumes "final_evaluation C st args = Inr r"
  shows "\<exists>out qe qa.
           forward C (set_mode C False (learner st)) (eval_inputs r) (eval_args r) = Inr out
         \<and> loss_func C out (eval_labels r) = Inr qe
         \<and> calculate_accuracy C out (eval_labels r) = Inr qa
         \<and> logged r = logging st @ [(query_error, Loss qe), (query_accuracy, Accuracy qa)]"
  using assms by (auto simp: final_evaluation_def Let_def bind_err_Inr_iff)

lemma final_evaluation_rows:
  assumes final: "final_evaluation C st args = Inr r"
      and qi: "concat (query_inputs st)
                 = gather inputs (concat (map (\<lambda>c. odds (where_eq labels c)) (unique labels)))"
      and ql: "concat (query_labels st)
                 = gather labels (concat (map (\<lambda>c. odds (where_eq labels c)) (unique labels)))"
      and ev: "\<forall>c\<in>set labels. even (count_list labels c)"
  shows "eval_inputs r
           = gather inputs (concat (map (\<lambda>c. take 5 (odds (where_eq labels c))) (unique labels)))
       \<and> eval_labels r
           = gather labels (concat (map (\<lambda>c. take 5 (odds (where_eq labels c))) (unique labels)))"
proof -
  define Q where "Q = concat (map (\<lambda>c. odds (where_eq labels c)) (unique labels))"
  from final_evaluation_success[OF final] obtain all_inputs all_labels idx where
    ai: "cat (query_inputs st) = Inr all_inputs"
    and al: "cat (query_labels st) = Inr all_labels"
    and t: "testing_indexes all_labels = Inr idx"
    and ei: "eval_inputs r = gather all_inputs idx"
    and el: "eval_labels r = gather all_labels idx"
    by blast
  have ai': "all_inputs = gather inputs Q"
    using ai qi by (auto simp: cat_def Q_def split: if_splits)
  have al': "all_labels = gather labels Q"
    using al ql by (auto simp: cat_def Q_def split: if_splits)
  have evu: "\<forall>c\<in>set (unique labels). even (count_list labels c)"
    using ev by (simp add: set_unique)
  have "set (gather labels Q) = set labels"
    unfolding Q_def query_labels_of_classes[OF evu] by (rule halves_cover[OF ev])
  then have u: "unique (gather labels Q) = unique labels" by (rule unique_eq_iff_set)
  note tr = testing_rows[OF t[unfolded al'] Q_def u]
  show ?thesis
    unfolding ei el ai' al' using tr by (simp add: gather_gather)
qed

lemma FSCL_episode_final_counts:
  assumes run: "FSCL_episode C perm self inputs labels0 = Inr r"
      and perm: "mset perm = mset [0..<length (unique labels0)]"
      and ev0: "\<forall>c\<in>set labels0. even (count_list labels0 c)"
  shows "\<exists>labels. return_random_labels perm labels0 = Inr labels
           \<and> eval_inputs r
               = gather inputs
                   (concat (map (\<lambda>c. take 5 (odds (where_eq labels c))) (unique labels)))
           \<and> eval_labels r
               = gather labels
                   (concat (map (\<lambda>c. take 5 (odds (where_eq labels c))) (unique labels)))
           \<and> set (eval_labels r) = set labels
           \<and> (\<forall>c. count_list (eval_labels r) c = min 5 (count_list labels c div 2))
           \<and> (\<exists>w out qe qa pre.
                  forward C w (eval_inputs r) (eval_args r) = Inr out
                \<and> loss_func C out (eval_labels r) = Inr qe
                \<and> calculate_accuracy C out (eval_labels r) = Inr qa
                \<and> logged r = pre @ [(query_error, Loss qe), (query_accuracy, Accuracy qa)])"
proof -
  let ?s = "n_classes_start self" and ?a = "n_class_additions self"
  let ?n = "length (unique labels0)"
  from FSCL_episode_success[OF run]
  obtain labels first others si sl qi ql learner' output' acc quick_inputs quick_labels st st2
    where l: "return_random_labels perm labels0 = Inr labels"
      and b: "return_label_batches ?s ?a labels = Inr (first # others)"
      and sp: "iteration_split inputs labels first = Inr (si, sl, qi, ql)"
      and loops: "FSCL_inner_loops C self inputs labels 0 others
          \<lparr>learner = learner', last_output = output', total_classes_present = length first,
           query_inputs = [qi], query_labels = [ql],
           quick_update_inputs = [quick_inputs], quick_update_labels = [quick_labels],
           logging = [(step_inner_accuracy 0, Accuracy acc)], heads = [length first]\<rparr> = Inr st"
      and quick: "FSCL_quick_adapt C self st = Inr st2"
      and final: "final_evaluation C st2 (Heads (total_classes_present st2)) = Inr r"
    by blast
  have sl0: "set labels = set labels0" by (rule return_random_labels_same_set[OF l perm])
  have u: "unique labels = unique labels0" using sl0 by (rule unique_eq_iff_set)
  have rng: "set labels = {0..<0 + int ?n}"
    using return_random_labels_range[OF l perm] sl0 int_image_interval by simp
  have a: "?a \<noteq> 0"
    using b by (auto simp: return_label_batches_def Let_def split: if_splits)
  have ne: "labels \<noteq> []"
    using b return_label_batches_no_labels[of ?s ?a] by auto
  have first_ne: "first \<noteq> []" using sp by (auto simp: iteration_split_empty)
  have s1: "1 \<le> ?s"
  proof (rule ccontr)
    assume "\<not> 1 \<le> ?s"
    then have "?s = 0" by simp
    then show False using return_label_batches_zero_start[of ?a labels "first # others"] b first_ne
      by simp
  qed
  have sn: "?s \<le> ?n"
  proof (rule ccontr)
    assume "\<not> ?s \<le> ?n"
    then have "length (unique labels) \<le> ?s" using u by simp
    from return_label_batches_few_classes[OF this a ne] b
    have "others = [[]]" by simp
    then show False using loops by (simp add: iteration_split_empty)
  qed
  have cc: "concat (first # others) = unique labels"
    using s1 sn a b by (intro return_label_batches_concat[OF rng]) simp_all
  have ev: "\<forall>c\<in>set labels. even (count_list labels c)"
    by (rule even_counts_relabelled[OF l perm ev0])
  have sub: "set (concat (first # others)) = set labels" unfolding cc by (rule set_unique)
  have evf: "\<forall>c\<in>set first. even (count_list labels c)" using ev sub by auto
  have evo: "\<forall>c\<in>set (concat others). even (count_list labels c)" using ev sub by auto
  have ql: "ql = concat (map (\<lambda>c. replicate (count_list labels c div 2) c) first)"
    by (rule iteration_split_query_labels[OF sp evf])
  have "concat (query_labels st)
          = concat (map (\<lambda>c. replicate (count_list labels c div 2) c) (concat (first # others)))"
    using FSCL_inner_loops_queries[OF loops evo] by (simp add: ql)
  then have q: "concat (query_labels st2)
          = concat (map (\<lambda>c. replicate (count_list labels c div 2) c) (unique labels))"
    using FSCL_quick_adapt_keeps[OF quick] unfolding cc by simp
  have cnt: "\<forall>c. count_list (eval_labels r) c = min 5 (count_list labels c div 2)"
    by (rule final_evaluation_counts[OF final q])
  have cls: "set (eval_labels r) = set labels" by (rule evaluated_classes[OF cnt ev])
  note q0 = iteration_split_query_rows[OF sp evf]
  note qr = FSCL_inner_loops_query_rows[OF loops evo]
  note keep = FSCL_quick_adapt_keeps[OF quick]
  have qi2: "concat (query_inputs st2)
               = gather inputs (concat (map (\<lambda>c. odds (where_eq labels c)) (unique labels)))"
    unfolding cc[symmetric] using qr q0 keep by (simp add: gather_append)
  have ql2: "concat (query_labels st2)
               = gather labels (concat (map (\<lambda>c. odds (where_eq labels c)) (unique labels)))"
    unfolding cc[symmetric] using qr q0 keep by (simp add: gather_append)
  note rows = final_evaluation_rows[OF final qi2 ql2 ev]
  from final_evaluation_calls[OF final] obtain out qe qa where
    calls: "forward C (set_mode C False (learner st2)) (eval_inputs r) (eval_args r) = Inr out"
      "loss_func C out (eval_labels r) = Inr qe"
      "calculate_accuracy C out (eval_labels r) = Inr qa"
      "logged r = logging st2 @ [(query_error, Loss qe), (query_accuracy, Accuracy qa)]"
    by blast
  have "\<exists>w out qe qa pre.
                  forward C w (eval_inputs r) (eval_args r) = Inr out
                \<and> loss_func C out (eval_labels r) = Inr qe
                \<and> calculate_accuracy C out (eval_labels r) = Inr qa
                \<and> logged r = pre @ [(query_error, Loss qe), (query_accuracy, Accuracy qa)]"
    using calls by blast
  then show ?thesis using l cnt cls rows by blast
qed

lemma OML_episode_final_counts:
  assumes run: "OML_episode C perm self inputs labels0 = Inr r"
      and perm: "mset perm = mset [0..<length (unique labels0)]"
      and ev0: "\<forall>c\<in>set labels0. even (count_list labels0 c)"
  shows "\<exists>labels. return_random_labels perm labels0 = Inr labels
           \<and> eval_inputs r
               = gather inputs
                   (concat (map (\<lambda>c. take 5 (odds (where_eq labels c))) (unique labels)))
           \<and> eval_labels r
               = gather labels
                   (concat (map (\<lambda>c. take 5 (odds (where_eq labels c))) (unique labels)))
           \<and> set (eval_labels r) = set labels
           \<and> (\<forall>c. count_list (eval_labels r) c = min 5 (count_list labels c div 2))
           \<and> (\<exists>w out qe qa pre.
                  forward C w (eval_inputs r) (eval_args r) = Inr out
                \<and> loss_func C out (eval_labels r) = Inr qe
                \<and> calculate_accuracy C out (eval_labels r) = Inr qa
                \<and> logged r = pre @ [(query_error, Loss qe), (query_accuracy, Accuracy qa)])"
proof -
  let ?s = "n_classes_start self" and ?a = "n_class_additions self"
  let ?n = "length (unique labels0)"
  from OML_episode_success[OF run]
  obtain labels class_batches st
    where l: "return_random_labels perm labels0 = Inr labels"
      and b: "return_label_batches ?s ?a labels = Inr class_batches"
      and loops: "OML_inner_loops C self inputs labels 0 class_batches
          \<lparr>learner = set_mode C True (cl_model self), last_output = None,
           total_classes_present = 0, query_inputs = [], query_labels = [],
           quick_update_inputs = [], quick_update_labels = [],
           logging = [], heads = []\<rparr> = Inr st"
      and final: "final_evaluation C st (HeadsInner (total_classes_present st) False) = Inr r"
    by blast
  have sl0: "set labels = set labels0" by (rule return_random_labels_same_set[OF l perm])
  have u: "unique labels = unique labels0" using sl0 by (rule unique_eq_iff_set)
  have rng: "set labels = {0..<0 + int ?n}"
    using return_random_labels_range[OF l perm] sl0 int_image_interval by simp
  have a: "?a \<noteq> 0"
    using b by (auto simp: return_label_batches_def Let_def split: if_splits)
  have ne: "labels \<noteq> []"
    using b return_label_batches_no_labels[of ?s ?a] by auto
  have s1: "1 \<le> ?s"
  proof (rule ccontr)
    assume "\<not> 1 \<le> ?s"
    then have "?s = 0" by simp
    then obtain rest where "class_batches = [] # rest"
      using return_label_batches_zero_start[of ?a labels class_batches] b by auto
    then show False using loops by (simp add: iteration_split_empty Let_def)
  qed
  have sn: "?s \<le> ?n"
  proof (rule ccontr)
    assume "\<not> ?s \<le> ?n"
    then have "length (unique labels) \<le> ?s" using u by simp
    from return_label_batches_few_classes[OF this a ne] b
    have "class_batches = [unique labels, []]" by simp
    then have "OML_inner_loops C self inputs labels 0 [unique labels, []]
          \<lparr>learner = set_mode C True (cl_model self), last_output = None,
           total_classes_present = 0, query_inputs = [], query_labels = [],
           quick_update_inputs = [], quick_update_labels = [],
           logging = [], heads = []\<rparr> = Inr st"
      using loops by simp
    then have "\<not> isl (OML_inner_loops C self inputs labels 0 [unique labels, []]
          \<lparr>learner = set_mode C True (cl_model self), last_output = None,
           total_classes_present = 0, query_inputs = [], query_labels = [],
           quick_update_inputs = [], quick_update_labels = [],
           logging = [], heads = []\<rparr>)"
      by (simp del: OML_inner_loops.simps)
    then show False using OML_inner_loops_trailing_empty by blast
  qed
  have cc: "concat class_batches = unique labels"
    using s1 sn a b by (intro return_label_batches_concat[OF rng]) simp_all
  have ev: "\<forall>c\<in>set labels. even (count_list labels c)"
    by (rule even_counts_relabelled[OF l perm ev0])
  have sub: "set (concat class_batches) = set labels" unfolding cc by (rule set_unique)
  have evo: "\<forall>c\<in>set (concat class_batches). even (count_list labels c)"
    using ev unfolding sub by simp
  have q: "concat (query_labels st)
          = concat (map (\<lambda>c. replicate (count_list labels c div 2) c) (unique labels))"
    using OML_inner_loops_queries[OF loops evo] unfolding cc by simp
  have cnt: "\<forall>c. count_list (eval_labels r) c = min 5 (count_list labels c div 2)"
    by (rule final_evaluation_counts[OF final q])
  have cls: "set (eval_labels r) = set labels" by (rule evaluated_classes[OF cnt ev])
  note qr = OML_inner_loops_query_rows[OF loops evo]
  have qi2: "concat (query_inputs st)
               = gather inputs (concat (map (\<lambda>c. odds (where_eq labels c)) (unique labels)))"
    unfolding cc[symmetric] using qr by simp
  have ql2: "concat (query_labels st)
               = gather labels (concat (map (\<lambda>c. odds (where_eq labels c)) (unique labels)))"
    unfolding cc[symmetric] using qr by simp
  note rows = final_evaluation_rows[OF final qi2 ql2 ev]
  from final_evaluation_calls[OF final] obtain out qe qa where
    calls: "forward C (set_mode C False (learner st)) (eval_inputs r) (eval_args r) = Inr out"
      "loss_func C out (eval_labels r) = Inr qe"
      "calculate_accuracy C out (eval_labels r) = Inr qa"
      "logged r = logging st @ [(query_error, Loss qe), (query_accuracy, Accuracy qa)]"
    by blast
  have "\<exists>w out qe qa pre.
                  forward C w (eval_inputs r) (eval_args r) = Inr out
                \<and> loss_func C out (eval_labels r) = Inr qe
                \<and> calculate_accuracy C out (eval_labels r) = Inr qa
                \<and> logged r = pre @ [(query_error, Loss qe), (query_accuracy, Accuracy qa)]"
    using calls by blast
  then show ?thesis using l cnt cls rows by blast
qed

text \<open>
  Claim C7, as amended. In an episode in which every class has an even number of examples
  (half of them support, half of them query examples), for the permutation drawn by
  \<open>return_random_labels\<close>: when \<open>FSCL.meta_learn\<close> or \<open>OML.meta_learn\<close> completes,
  the rows of the final query evaluation are, for every class of the episode in ascending
  order, the first five of the query rows of the class (its occurrences at the odd places),
  all of them when there are fewer. So the labels evaluated are exactly the classes of the
  episode, each class \<open>c\<close> on \<open>min 5 q\<close> rows, \<open>q\<close> the number of its query examples.
  These rows are what the model is called on, their labels are what the loss and the
  accuracy are computed on, and the two results are the last two entries returned.
\<close>

theorem final_query_evaluation_five_per_class:
  assumes perm: "mset perm = mset [0..<length (unique (map snd batch))]"
      and ev: "\<forall>c\<in>set (map snd batch). even (count_list (map snd batch) c)"
  shows "(\<forall>r. snd (FSCL_meta_learn C perm self batch) = Inr r \<longrightarrow>
            (\<exists>labels. return_random_labels perm (map snd batch) = Inr labels
               \<and> eval_inputs r
                   = gather (map fst batch)
                       (concat (map (\<lambda>c. take 5 (odds (where_eq labels c))) (unique labels)))
               \<and> eval_labels r
                   = gather labels
                       (concat (map (\<lambda>c. take 5 (odds (where_eq labels c))) (unique labels)))
               \<and> set (eval_labels r) = set labels
               \<and> (\<forall>c. count_list (eval_labels r) c = min 5 (count_list labels c div 2))
               \<and> (\<exists>w out qe qa pre.
                      forward C w (eval_inputs r) (eval_args r) = Inr out
                    \<and> loss_func C out (eval_labels r) = Inr qe
                    \<and> calculate_accuracy C out (eval_labels r) = Inr qa
                    \<and> logged r = pre @ [(query_error, Loss qe), (query_accuracy, Accuracy qa)])))
       \<and> (\<forall>r. snd (OML_meta_learn C' perm self' batch) = Inr r \<longrightarrow>
            (\<exists>labels. return_random_labels perm (map snd batch) = Inr labels
               \<and> eval_inputs r
                   = gather (map fst batch)
                       (concat (map (\<lambda>c. take 5 (odds (where_eq labels c))) (unique labels)))
               \<and> eval_labels r
                   = gather labels
                       (concat (map (\<lambda>c. take 5 (odds (where_eq labels c))) (unique labels)))
               \<and> set (eval_labels r) = set labels
               \<and> (\<forall>c. count_list (eval_labels r) c = min 5 (count_list labels c div 2))
               \<and> (\<exists>w out qe qa pre.
                      forward C' w (eval_inputs r) (eval_args r) = Inr out
                    \<and> loss_func C' out (eval_labels r) = Inr qe
                    \<and> calculate_accuracy C' out (eval_labels r) = Inr qa
                    \<and> logged r = pre @ [(query_error, Loss qe), (query_accuracy, Accuracy qa)])))"
proof (intro conjI allI impI)
  fix r assume "snd (FSCL_meta_learn C perm self batch) = Inr r"
  then have "FSCL_episode C perm self (map fst batch) (map snd batch) = Inr r"
    by (simp add: FSCL_meta_learn_def)
  then show "(\<exists>labels. return_random_labels perm (map snd batch) = Inr labels
       \<and> eval_inputs r
           = gather (map fst batch)
               (concat (map (\<lambda>c. take 5 (odds (where_eq labels c))) (unique labels)))
       \<and> eval_labels r
           = gather labels
               (concat (map (\<lambda>c. take 5 (odds (where_eq labels c))) (unique labels)))
       \<and> set (eval_labels r) = set labels
       \<and> (\<forall>c. count_list (eval_labels r) c = min 5 (count_list labels c div 2))
       \<and> (\<exists>w out qe qa pre.
              forward C w (eval_inputs r) (eval_args r) = Inr out
            \<and> loss_func C out (eval_labels r) = Inr qe
            \<and> calculate_accuracy C out (eval_labels r) = Inr qa
            \<and> logged r = pre @ [(query_error, Loss qe), (query_accuracy, Accuracy qa)]))"
    using perm ev by (rule FSCL_episode_final_counts)
next
  fix r assume "snd (OML_meta_learn C' perm self' batch) = Inr r"
  then have "OML_episode C' perm self' (map fst batch) (map snd batch) = Inr r"
    by (simp add: OML_meta_learn_def)
  then show "(\<exists>labels. return_random_labels perm (map snd batch) = Inr labels
       \<and> eval_inputs r
           = gather (map fst batch)
               (concat (map (\<lambda>c. take 5 (odds (where_eq labels c))) (unique labels)))
       \<and> eval_labels r
           = gather labels
               (concat (map (\<lambda>c. take 5 (odds (where_eq labels c))) (unique labels)))
       \<and> set (eval_labels r) = set labels
       \<and> (\<forall>c. count_list (eval_labels r) c = min 5 (count_list labels c div 2))
       \<and> (\<exists>w out qe qa pre.
              forward C' w (eval_inputs r) (eval_args r) = Inr out
            \<and> loss_func C' out (eval_labels r) = Inr qe
            \<and> calculate_accuracy C' out (eval_labels r) = Inr qa
            \<and> logged r = pre @ [(query_error, Loss qe), (query_accuracy, Accuracy qa)]))"
    using perm ev by (rule OML_episode_final_counts)
qed

theorem final_query_evaluation_five_per_class_witness:
  "mset [1, 0] = mset [0..<length (unique (map snd
       [(0 :: nat, 0 :: int), (1, 0), (2, 0), (3, 0), (4, 0), (5, 0), (6, 0), (7, 0), (8, 0),
        (9, 0), (10, 0), (11, 0), (12, 1), (13, 1)]))]
   \<and> even (count_list [0, 0, 0, 0, 0, 0, 0, 0, 0, 0, 0, 0, 1, 1] (0 :: int))
   \<and> even (count_list [0, 0, 0, 0, 0, 0, 0, 0, 0, 0, 0, 0, 1, 1] (1 :: int))
   \<and> snd (FSCL_meta_learn (FSCL_test_collaborators 2) [1, 0]
           \<lparr>cl_model = 0 :: nat, n_classes_start = 1, n_class_additions = 1, training_steps = 2,
            initial_training_steps = 1, quick_adapt = False, k_shot = 6\<rparr>
           [(0 :: nat, 0 :: int), (1, 0), (2, 0), (3, 0), (4, 0), (5, 0), (6, 0), (7, 0), (8, 0),
        (9, 0), (10, 0), (11, 0), (12, 1), (13, 1)])
       = Inr \<lparr>logged = [(step_inner_accuracy 0, Accuracy (0 :: nat)), (step_inner_accuracy 1, Accuracy 0),
                       (query_error, Loss (0 :: nat)), (query_accuracy, Accuracy 0)],
              head_trace = [1, 2], eval_inputs = [13, 1, 3, 5, 7, 9 :: nat],
              eval_labels = [0, 1, 1, 1, 1, 1], eval_args = Heads 2\<rparr>
   \<and> snd (OML_meta_learn (OML_test_collaborators 2) [1, 0]
           \<lparr>cl_model = 0 :: nat, n_classes_start = 1, n_class_additions = 1, training_steps = 2,
            initial_training_steps = 1, quick_adapt = False, k_shot = 6\<rparr>
           [(0 :: nat, 0 :: int), (1, 0), (2, 0), (3, 0), (4, 0), (5, 0), (6, 0), (7, 0), (8, 0),
        (9, 0), (10, 0), (11, 0), (12, 1), (13, 1)])
       = Inr \<lparr>logged = [(step_inner_accuracy 1, Accuracy (0 :: nat)), (step_inner_accuracy 2, Accuracy 0),
                       (query_error, Loss (0 :: nat)), (query_accuracy, Accuracy 0)],
              head_trace = [1, 2], eval_inputs = [13, 1, 3, 5, 7, 9 :: nat],
              eval_labels = [0, 1, 1, 1, 1, 1], eval_args = HeadsInner 2 False\<rparr>
   \<and> return_random_labels [1, 0] [0, 0, 0, 0, 0, 0, 0, 0, 0, 0, 0, 0, 1, 1]
       = Inr [1, 1, 1, 1, 1, 1, 1, 1, 1, 1, 1, 1, 0, 0]
   \<and> concat (map (\<lambda>c. take 5 (odds (where_eq [1, 1, 1, 1, 1, 1, 1, 1, 1, 1, 1, 1, 0, 0] c)))
               (unique [1, 1, 1, 1, 1, 1, 1, 1, 1, 1, 1, 1, 0, 0]))
       = [13, 1, 3, 5, 7, 9]
   \<and>
   (\<exists>labels. return_random_labels [1, 0] (map snd 
       [(0 :: nat, 0 :: int), (1, 0), (2, 0), (3, 0), (4, 0), (5, 0), (6, 0), (7, 0), (8, 0),
        (9, 0), (10, 0), (11, 0), (12, 1), (13, 1)]) = Inr labels
      \<and> eval_inputs 
\<lparr>logged = [(step_inner_accuracy 0, Accuracy (0 :: nat)), (step_inner_accuracy 1, Accuracy 0),
                       (query_error, Loss (0 :: nat)), (query_accuracy, Accuracy 0)],
              head_trace = [1, 2], eval_inputs = [13, 1, 3, 5, 7, 9 :: nat],
              eval_labels = [0, 1, 1, 1, 1, 1], eval_args = Heads 2\<rparr>
          = gather (map fst 
       [(0 :: nat, 0 :: int), (1, 0), (2, 0), (3, 0), (4, 0), (5, 0), (6, 0), (7, 0), (8, 0),
        (9, 0), (10, 0), (11, 0), (12, 1), (13, 1)])
              (concat (map (\<lambda>c. take 5 (odds (where_eq labels c))) (unique labels)))
      \<and> eval_labels 
\<lparr>logged = [(step_inner_accuracy 0, Accuracy (0 :: nat)), (step_inner_accuracy 1, Accuracy 0),
                       (query_error, Loss (0 :: nat)), (query_accuracy, Accuracy 0)],
              head_trace = [1, 2], eval_inputs = [13, 1, 3, 5, 7, 9 :: nat],
              eval_labels = [0, 1, 1, 1, 1, 1], eval_args = Heads 2\<rparr>
          = gather labels
              (concat (map (\<lambda>c. take 5 (odds (where_eq labels c))) (unique labels)))
      \<and> set (eval_labels 
\<lparr>logged = [(step_inner_accuracy 0, Accuracy (0 :: nat)), (step_inner_accuracy 1, Accuracy 0),
                       (query_error, Loss (0 :: nat)), (query_accuracy, Accuracy 0)],
              head_trace = [1, 2], eval_inputs = [13, 1, 3, 5, 7, 9 :: nat],
              eval_labels = [0, 1, 1, 1, 1, 1], eval_args = Heads 2\<rparr>) = set labels
      \<and> (\<forall>c. count_list (eval_labels 
\<lparr>logged = [(step_inner_accuracy 0, Accuracy (0 :: nat)), (step_inner_accuracy 1, Accuracy 0),
                       (query_error, Loss (0 :: nat)), (query_accuracy, Accuracy 0)],
              head_trace = [1, 2], eval_inputs = [13, 1, 3, 5, 7, 9 :: nat],
              eval_labels = [0, 1, 1, 1, 1, 1], eval_args = Heads 2\<rparr>) c = min 5 (count_list labels c div 2))
      \<and> (\<exists>w out qe qa pre.
             forward (FSCL_test_collaborators 2) w (eval_inputs 
\<lparr>logged = [(step_inner_accuracy 0, Accuracy (0 :: nat)), (step_inner_accuracy 1, Accuracy 0),
                       (query_error, Loss (0 :: nat)), (query_accuracy, Accuracy 0)],
              head_trace = [1, 2], eval_inputs = [13, 1, 3, 5, 7, 9 :: nat],
              eval_labels = [0, 1, 1, 1, 1, 1], eval_args = Heads 2\<rparr>) (eval_args 
\<lparr>logged = [(step_inner_accuracy 0, Accuracy (0 :: nat)), (step_inner_accuracy 1, Accuracy 0),
                       (query_error, Loss (0 :: nat)), (query_accuracy, Accuracy 0)],
              head_trace = [1, 2], eval_inputs = [13, 1, 3, 5, 7, 9 :: nat],
              eval_labels = [0, 1, 1, 1, 1, 1], eval_args = Heads 2\<rparr>) = Inr out
           \<and> loss_func (FSCL_test_collaborators 2) out (eval_labels 
\<lparr>logged = [(step_inner_accuracy 0, Accuracy (0 :: nat)), (step_inner_accuracy 1, Accuracy 0),
                       (query_error, Loss (0 :: nat)), (query_accuracy, Accuracy 0)],
              head_trace = [1, 2], eval_inputs = [13, 1, 3, 5, 7, 9 :: nat],
              eval_labels = [0, 1, 1, 1, 1, 1], eval_args = Heads 2\<rparr>) = Inr qe
           \<and> calculate_accuracy (FSCL_test_collaborators 2) out (eval_labels 
\<lparr>logged = [(step_inner_accuracy 0, Accuracy (0 :: nat)), (step_inner_accuracy 1, Accuracy 0),
                       (query_error, Loss (0 :: nat)), (query_accuracy, Accuracy 0)],
              head_trace = [1, 2], eval_inputs = [13, 1, 3, 5, 7, 9 :: nat],
              eval_labels = [0, 1, 1, 1, 1, 1], eval_args = Heads 2\<rparr>) = Inr qa
           \<and> logged 
\<lparr>logged = [(step_inner_accuracy 0, Accuracy (0 :: nat)), (step_inner_accuracy 1, Accuracy 0),
                       (query_error, Loss (0 :: nat)), (query_accuracy, Accuracy 0)],
              head_trace = [1, 2], eval_inputs = [13, 1, 3, 5, 7, 9 :: nat],
              eval_labels = [0, 1, 1, 1, 1, 1], eval_args = Heads 2\<rparr> = pre @ [(query_error, Loss qe), (query_accuracy, Accuracy qa)]))
   \<and>
   (\<exists>labels. return_random_labels [1, 0] (map snd 
       [(0 :: nat, 0 :: int), (1, 0), (2, 0), (3, 0), (4, 0), (5, 0), (6, 0), (7, 0), (8, 0),
        (9, 0), (10, 0), (11, 0), (12, 1), (13, 1)]) = Inr labels
      \<and> eval_inputs 
\<lparr>logged = [(step_inner_accuracy 1, Accuracy (0 :: nat)), (step_inner_accuracy 2, Accuracy 0),
                       (query_error, Loss (0 :: nat)), (query_accuracy, Accuracy 0)],
              head_trace = [1, 2], eval_inputs = [13, 1, 3, 5, 7, 9 :: nat],
              eval_labels = [0, 1, 1, 1, 1, 1], eval_args = HeadsInner 2 False\<rparr>
          = gather (map fst 
       [(0 :: nat, 0 :: int), (1, 0), (2, 0), (3, 0), (4, 0), (5, 0), (6, 0), (7, 0), (8, 0),
        (9, 0), (10, 0), (11, 0), (12, 1), (13, 1)])
              (concat (map (\<lambda>c. take 5 (odds (where_eq labels c))) (unique labels)))
      \<and> eval_labels 
\<lparr>logged = [(step_inner_accuracy 1, Accuracy (0 :: nat)), (step_inner_accuracy 2, Accuracy 0),
                       (query_error, Loss (0 :: nat)), (query_accuracy, Accuracy 0)],
              head_trace = [1, 2], eval_inputs = [13, 1, 3, 5, 7, 9 :: nat],
              eval_labels = [0, 1, 1, 1, 1, 1], eval_args = HeadsInner 2 False\<rparr>
          = gather labels
              (concat (map (\<lambda>c. take 5 (odds (where_eq labels c))) (unique labels)))
      \<and> set (eval_labels 
\<lparr>logged = [(step_inner_accuracy 1, Accuracy (0 :: nat)), (step_inner_accuracy 2, Accuracy 0),
                       (query_error, Loss (0 :: nat)), (query_accuracy, Accuracy 0)],
              head_trace = [1, 2], eval_inputs = [13, 1, 3, 5, 7, 9 :: nat],
              eval_labels = [0, 1, 1, 1, 1, 1], eval_args = HeadsInner 2 False\<rparr>) = set labels
      \<and> (\<forall>c. count_list (eval_labels 
\<lparr>logged = [(step_inner_accuracy 1, Accuracy (0 :: nat)), (step_inner_accuracy 2, Accuracy 0),
                       (query_error, Loss (0 :: nat)), (query_accuracy, Accuracy 0)],
              head_trace = [1, 2], eval_inputs = [13, 1, 3, 5, 7, 9 :: nat],
              eval_labels = [0, 1, 1, 1, 1, 1], eval_args = HeadsInner 2 False\<rparr>) c = min 5 (count_list labels c div 2))
      \<and> (\<exists>w out qe qa pre.
             forward (OML_test_collaborators 2) w (eval_inputs 
\<lparr>logged = [(step_inner_accuracy 1, Accuracy (0 :: nat)), (step_inner_accuracy 2, Accuracy 0),
                       (query_error, Loss (0 :: nat)), (query_accuracy, Accuracy 0)],
              head_trace = [1, 2], eval_inputs = [13, 1, 3, 5, 7, 9 :: nat],
              eval_labels = [0, 1, 1, 1, 1, 1], eval_args = HeadsInner 2 False\<rparr>) (eval_args 
\<lparr>logged = [(step_inner_accuracy 1, Accuracy (0 :: nat)), (step_inner_accuracy 2, Accuracy 0),
                       (query_error, Loss (0 :: nat)), (query_accuracy, Accuracy 0)],
              head_trace = [1, 2], eval_inputs = [13, 1, 3, 5, 7, 9 :: nat],
              eval_labels = [0, 1, 1, 1, 1, 1], eval_args = HeadsInner 2 False\<rparr>) = Inr out
           \<and> loss_func (OML_test_collaborators 2) out (eval_labels 
\<lparr>logged = [(step_inner_accuracy 1, Accuracy (0 :: nat)), (step_inner_accuracy 2, Accuracy 0),
                       (query_error, Loss (0 :: nat)), (query_accuracy, Accuracy 0)],
              head_trace = [1, 2], eval_inputs = [13, 1, 3, 5, 7, 9 :: nat],
              eval_labels = [0, 1, 1, 1, 1, 1], eval_args = HeadsInner 2 False\<rparr>) = Inr qe
           \<and> calculate_accuracy (OML_test_collaborators 2) out (eval_labels 
\<lparr>logged = [(step_inner_accuracy 1, Accuracy (0 :: nat)), (step_inner_accuracy 2, Accuracy 0),
                       (query_error, Loss (0 :: nat)), (query_accuracy, Accuracy 0)],
              head_trace = [1, 2], eval_inputs = [13, 1, 3, 5, 7, 9 :: nat],
              eval_labels = [0, 1, 1, 1, 1, 1], eval_args = HeadsInner 2 False\<rparr>) = Inr qa
           \<and> logged 
\<lparr>logged = [(step_inner_accuracy 1, Accuracy (0 :: nat)), (step_inner_accuracy 2, Accuracy 0),
                       (query_error, Loss (0 :: nat)), (query_accuracy, Accuracy 0)],
              head_trace = [1, 2], eval_inputs = [13, 1, 3, 5, 7, 9 :: nat],
              eval_labels = [0, 1, 1, 1, 1, 1], eval_args = HeadsInner 2 False\<rparr> = pre @ [(query_error, Loss qe), (query_accuracy, Accuracy qa)]))"
proof -
  let ?batch = "[(0 :: nat, 0 :: int), (1, 0), (2, 0), (3, 0), (4, 0), (5, 0), (6, 0), (7, 0), (8, 0),
        (9, 0), (10, 0), (11, 0), (12, 1), (13, 1)]"
  let ?self = "\<lparr>cl_model = 0 :: nat, n_classes_start = 1, n_class_additions = 1, training_steps = 2,
            initial_training_steps = 1, quick_adapt = False, k_shot = 6\<rparr>"
  let ?r = "\<lparr>logged = [(step_inner_accuracy 0, Accuracy (0 :: nat)), (step_inner_accuracy 1, Accuracy 0),
                       (query_error, Loss (0 :: nat)), (query_accuracy, Accuracy 0)],
              head_trace = [1, 2], eval_inputs = [13, 1, 3, 5, 7, 9 :: nat],
              eval_labels = [0, 1, 1, 1, 1, 1], eval_args = Heads 2\<rparr>"
  let ?r' = "\<lparr>logged = [(step_inner_accuracy 1, Accuracy (0 :: nat)), (step_inner_accuracy 2, Accuracy 0),
                       (query_error, Loss (0 :: nat)), (query_accuracy, Accuracy 0)],
              head_trace = [1, 2], eval_inputs = [13, 1, 3, 5, 7, 9 :: nat],
              eval_labels = [0, 1, 1, 1, 1, 1], eval_args = HeadsInner 2 False\<rparr>"
  have ms: "map snd ?batch = [0, 0, 0, 0, 0, 0, 0, 0, 0, 0, 0, 0, 1, 1]" by simp
  have u: "unique [0, 0, 0, 0, 0, 0, 0, 0, 0, 0, 0, 0, 1, 1] = [0, 1]" by (simp add: unique_def)
  have h1: "mset [1, 0] = mset [0..<length (unique (map snd ?batch))]"
    unfolding ms u by (simp add: numeral_2_eq_2)
  have e0: "even (count_list [0, 0, 0, 0, 0, 0, 0, 0, 0, 0, 0, 0, 1, 1] (0 :: int))" by simp
  have e1: "even (count_list [0, 0, 0, 0, 0, 0, 0, 0, 0, 0, 0, 0, 1, 1] (1 :: int))" by simp
  have h2: "\<forall>c\<in>set (map snd ?batch). even (count_list (map snd ?batch) c)"
    unfolding ms by simp
  have h3: "snd (FSCL_meta_learn (FSCL_test_collaborators 2) [1, 0] ?self ?batch) = Inr ?r"
    by code_simp
  have h4: "snd (OML_meta_learn (OML_test_collaborators 2) [1, 0] ?self ?batch) = Inr ?r'"
    by code_simp
  have h5: "return_random_labels [1, 0] [0, 0, 0, 0, 0, 0, 0, 0, 0, 0, 0, 0, 1, 1]
       = Inr [1, 1, 1, 1, 1, 1, 1, 1, 1, 1, 1, 1, 0, 0]"
    by code_simp
  have h6: "concat (map (\<lambda>c. take 5 (odds (where_eq [1, 1, 1, 1, 1, 1, 1, 1, 1, 1, 1, 1, 0, 0] c)))
               (unique [1, 1, 1, 1, 1, 1, 1, 1, 1, 1, 1, 1, 0, 0]))
       = [13, 1, 3, 5, 7, 9]"
    by code_simp
  note T = final_query_evaluation_five_per_class[OF h1 h2,
      where C = "FSCL_test_collaborators 2" and self = ?self
        and C' = "OML_test_collaborators 2" and self' = ?self]
  from T h3 have c1:
   "(\<exists>labels. return_random_labels [1, 0] (map snd ?batch) = Inr labels
      \<and> eval_inputs ?r
          = gather (map fst ?batch)
              (concat (map (\<lambda>c. take 5 (odds (where_eq labels c))) (unique labels)))
      \<and> eval_labels ?r
          = gather labels
              (concat (map (\<lambda>c. take 5 (odds (where_eq labels c))) (unique labels)))
      \<and> set (eval_labels ?r) = set labels
      \<and> (\<forall>c. count_list (eval_labels ?r) c = min 5 (count_list labels c div 2))
      \<and> (\<exists>w out qe qa pre.
             forward (FSCL_test_collaborators 2) w (eval_inputs ?r) (eval_args ?r) = Inr out
           \<and> loss_func (FSCL_test_collaborators 2) out (eval_labels ?r) = Inr qe
           \<and> calculate_accuracy (FSCL_test_collaborators 2) out (eval_labels ?r) = Inr qa
           \<and> logged ?r = pre @ [(query_error, Loss qe), (query_accuracy, Accuracy qa)]))"
    by blast
  from T h4 have c2:
   "(\<exists>labels. return_random_labels [1, 0] (map snd ?batch) = Inr labels
      \<and> eval_inputs ?r'
          = gather (map fst ?batch)
              (concat (map (\<lambda>c. take 5 (odds (where_eq labels c))) (unique labels)))
      \<and> eval_labels ?r'
          = gather labels
              (concat (map (\<lambda>c. take 5 (odds (where_eq labels c))) (unique labels)))
      \<and> set (eval_labels ?r') = set labels
      \<and> (\<forall>c. count_list (eval_labels ?r') c = min 5 (count_list labels c div 2))
      \<and> (\<exists>w out qe qa pre.
             forward (OML_test_collaborators 2) w (eval_inputs ?r') (eval_args ?r') = Inr out
           \<and> loss_func (OML_test_collaborators 2) out (eval_labels ?r') = Inr qe
           \<and> calculate_accuracy (OML_test_collaborators 2) out (eval_labels ?r') = Inr qa
           \<and> logged ?r' = pre @ [(query_error, Loss qe), (query_accuracy, Accuracy qa)]))"
    by blast
  show ?thesis using h1 e0 e1 h3 h4 h5 h6 c1 c2 by blast
qed

text \<open>
  Claim C7, as stated, fails for an episode in which a class has an odd number of examples.
  With the labels \<open>0, 1, 1, 1, 2, 2\<close> (the permutation drawn being the identity) and two
  starting classes, the interleaving of the first class batch puts the only example of class
  \<open>0\<close> into the support half. Both methods complete, having trained on the three classes
  (the head counts are \<open>2\<close> and \<open>3\<close>), and the final query evaluation is on the rows
  \<open>1, 3, 5\<close> with the labels \<open>1, 1, 2\<close>: class \<open>0\<close> is not evaluated.
\<close>

theorem final_query_evaluation_counterexample:
  "return_random_labels [0, 1, 2] [0, 1, 1, 1, 2, 2] = Inr [0, 1, 1, 1, 2, 2]
   \<and> snd (FSCL_meta_learn (FSCL_test_collaborators 4) [0, 1, 2]
           \<lparr>cl_model = 0, n_classes_start = 2, n_class_additions = 1, training_steps = 1,
            initial_training_steps = 1, quick_adapt = False, k_shot = 1\<rparr>
           [(0, 0), (1, 1), (2, 1), (3, 1), (4, 2), (5, 2)])
       = Inr \<lparr>logged = [(step_inner_accuracy 0, Accuracy 0), (step_inner_accuracy 1, Accuracy 0),
                       (query_error, Loss 0), (query_accuracy, Accuracy 0)],
              head_trace = [2, 3], eval_inputs = [1, 3, 5],
              eval_labels = [1, 1, 2], eval_args = Heads 3\<rparr>
   \<and> snd (OML_meta_learn (OML_test_collaborators 4) [0, 1, 2]
           \<lparr>cl_model = 0, n_classes_start = 2, n_class_additions = 1, training_steps = 1,
            initial_training_steps = 1, quick_adapt = False, k_shot = 1\<rparr>
           [(0, 0), (1, 1), (2, 1), (3, 1), (4, 2), (5, 2)])
       = Inr \<lparr>logged = [(step_inner_accuracy 1, Accuracy 0), (step_inner_accuracy 2, Accuracy 0),
                       (query_error, Loss 0), (query_accuracy, Accuracy 0)],
              head_trace = [2, 3], eval_inputs = [1, 3, 5],
              eval_labels = [1, 1, 2], eval_args = HeadsInner 3 False\<rparr>
   \<and> (0 :: int) \<in> set [0, 1, 1, 1, 2, 2] \<and> (0 :: int) \<notin> set [1, 1, 2]"
  by code_simp

subsection \<open>The stored parameters of \<open>Reptile\<close>\<close>

lemma interpolate_elementwise:
  "interpolate old new lr = Inr res \<Longrightarrow>
     length res = length old
   \<and> (\<forall>k<length old.
         fst (res ! k) = fst (old ! k)
       \<and> (\<exists>w1. map_of new (fst (old ! k)) = Some w1
             \<and> length w1 = length (snd (old ! k))
             \<and> length (snd (res ! k)) = length (snd (old ! k))
             \<and> (\<forall>i<length (snd (old ! k)).
                   snd (res ! k) ! i
                     = snd (old ! k) ! i + (w1 ! i - snd (old ! k) ! i) * lr)))"
proof (induction old arbitrary: res)
  case Nil
  then show ?case by simp
next
  case (Cons p rest)
  obtain name w0 where p: "p = (name, w0)" by (cases p)
  from Cons.prems obtain w1 rest' where
    n: "map_of new name = Some w1" and l: "length w1 = length w0"
    and r: "interpolate rest new lr = Inr rest'"
    and res: "res = (name, map2 (\<lambda>a b. a + (b - a) * lr) w0 w1) # rest'"
    by (auto simp: p bind_err_Inr_iff split: option.splits if_splits)
  have ih: "length rest' = length rest
   \<and> (\<forall>k<length rest.
         fst (rest' ! k) = fst (rest ! k)
       \<and> (\<exists>w1. map_of new (fst (rest ! k)) = Some w1
             \<and> length w1 = length (snd (rest ! k))
             \<and> length (snd (rest' ! k)) = length (snd (rest ! k))
             \<and> (\<forall>i<length (snd (rest ! k)).
                   snd (rest' ! k) ! i
                     = snd (rest ! k) ! i + (w1 ! i - snd (rest ! k) ! i) * lr)))"
    by (rule Cons.IH[OF r])
  show ?case
  proof (intro conjI allI impI)
    show "length res = length (p # rest)" using ih by (simp add: res)
  next
    fix k assume k: "k < length (p # rest)"
    show "fst (res ! k) = fst ((p # rest) ! k)"
      using ih k by (cases k) (simp_all add: res p)
    show "\<exists>w1. map_of new (fst ((p # rest) ! k)) = Some w1
             \<and> length w1 = length (snd ((p # rest) ! k))
             \<and> length (snd (res ! k)) = length (snd ((p # rest) ! k))
             \<and> (\<forall>i<length (snd ((p # rest) ! k)).
                   snd (res ! k) ! i
                     = snd ((p # rest) ! k) ! i + (w1 ! i - snd ((p # rest) ! k) ! i) * lr)"
    proof (cases k)
      case 0
      then show ?thesis using n l by (simp add: res p)
    next
      case (Suc k')
      then show ?thesis using ih k by (simp add: res)
    qed
  qed
qed


lemma Reptile_outer_update_success:
  assumes "Reptile_outer_update s old = (s', Inr u)"
  shows "(rp_training s \<longrightarrow>
            rp_max_steps s \<noteq> 0
          \<and> interpolate old (rp_model s)
                (rp_initial_lr s * (1 - real (rp_outer_steps s) / real_of_int (rp_max_steps s)))
              = Inr (rp_model s')
          \<and> rp_outer_steps s' = rp_outer_steps s + 1)
       \<and> (\<not> rp_training s \<longrightarrow> rp_model s' = old \<and> rp_outer_steps s' = rp_outer_steps s)"
  using assms
  by (auto simp: Reptile_outer_update_def Let_def split: if_splits sum.splits)

lemma Reptile_meta_learn_success:
  assumes "Reptile_meta_learn C self batch = (self', Inr metrics)"
  shows "\<exists>support_input support_labels query_input query_labels opt W1.
      split_batch (map fst batch) (map snd batch)
        = Inr (support_input, support_labels, query_input, query_labels)
    \<and> reptile_fast_train C (rp_train_update_steps self)
          (case rp_augmentation self of
             Some augmentation \<Rightarrow>
               if rp_training self then augmentation support_input else support_input
           | None \<Rightarrow> support_input)
          support_labels (rp_optimizer self, rp_model self) = ((opt, W1), Inr ())
    \<and> Reptile_outer_update (self\<lparr>rp_model := W1, rp_optimizer := opt\<rparr>) (rp_model self)
          = (self', Inr ())"
proof -
  from assms obtain si sl qi ql where
    sp: "split_batch (map fst batch) (map snd batch) = Inr (si, sl, qi, ql)"
    by (cases "split_batch (map fst batch) (map snd batch)")
       (auto simp: Reptile_meta_learn_def)
  let ?x = "(case rp_augmentation self of
             Some augmentation \<Rightarrow> if rp_training self then augmentation si else si
           | None \<Rightarrow> si)"
  obtain opt W1 res where
    ft: "reptile_fast_train C (rp_train_update_steps self) ?x sl
           (rp_optimizer self, rp_model self) = ((opt, W1), res)"
    by (metis surj_pair)
  have "res = Inr () \<and>
      Reptile_outer_update (self\<lparr>rp_model := W1, rp_optimizer := opt\<rparr>) (rp_model self)
          = (self', Inr ())"
    using assms unfolding Reptile_meta_learn_def sp
    by (auto simp: Let_def ft split: sum.splits prod.splits)
  then show ?thesis using sp ft by blast
qed


text \<open>
  Claim C4. When \<open>Reptile.meta_learn\<close> returns, with \<open>W0\<close> the state dictionary at
  entry and \<open>W1\<close> the one the inner loop ends with: in training mode the stored
  dictionary has the names of \<open>W0\<close> in the same order and, for every name and every
  position in its tensor, the value \<open>W0 + (W1 - W0) * L\<close> with
  \<open>L = initial_lr * (1 - outer_steps / max_steps)\<close>, and the step counter is one higher; in
  evaluation mode the stored dictionary is \<open>W0\<close> and the counter is unchanged.
\<close>

theorem Reptile_stored_parameters:
  assumes "Reptile_meta_learn C self batch = (self', Inr metrics)"
  shows "\<exists>support_input support_labels query_input query_labels opt W1.
      split_batch (map fst batch) (map snd batch)
        = Inr (support_input, support_labels, query_input, query_labels)
    \<and> reptile_fast_train C (rp_train_update_steps self)
          (case rp_augmentation self of
             Some augmentation \<Rightarrow>
               if rp_training self then augmentation support_input else support_input
           | None \<Rightarrow> support_input)
          support_labels (rp_optimizer self, rp_model self) = ((opt, W1), Inr ())
    \<and> (rp_training self \<longrightarrow>
          rp_max_steps self \<noteq> 0
        \<and> length (rp_model self') = length (rp_model self)
        \<and> (\<forall>k<length (rp_model self).
              fst (rp_model self' ! k) = fst (rp_model self ! k)
            \<and> (\<exists>w1. map_of W1 (fst (rp_model self ! k)) = Some w1
                  \<and> length w1 = length (snd (rp_model self ! k))
                  \<and> length (snd (rp_model self' ! k)) = length (snd (rp_model self ! k))
                  \<and> (\<forall>i<length (snd (rp_model self ! k)).
                        snd (rp_model self' ! k) ! i
                          = snd (rp_model self ! k) ! i
                            + (w1 ! i - snd (rp_model self ! k) ! i)
                              * (rp_initial_lr self
                                 * (1 - real (rp_outer_steps self)
                                        / real_of_int (rp_max_steps self))))))
        \<and> rp_outer_steps self' = rp_outer_steps self + 1)
    \<and> (\<not> rp_training self \<longrightarrow>
          rp_model self' = rp_model self \<and> rp_outer_steps self' = rp_outer_steps self)"
proof -
  from Reptile_meta_learn_success[OF assms]
  obtain si sl qi ql opt W1 where
    sp: "split_batch (map fst batch) (map snd batch) = Inr (si, sl, qi, ql)"
    and ft: "reptile_fast_train C (rp_train_update_steps self)
          (case rp_augmentation self of
             Some augmentation \<Rightarrow> if rp_training self then augmentation si else si
           | None \<Rightarrow> si)
          sl (rp_optimizer self, rp_model self) = ((opt, W1), Inr ())"
    and ou: "Reptile_outer_update (self\<lparr>rp_model := W1, rp_optimizer := opt\<rparr>) (rp_model self)
          = (self', Inr ())"
    by blast
  let ?L = "rp_initial_lr self
              * (1 - real (rp_outer_steps self) / real_of_int (rp_max_steps self))"
  note o = Reptile_outer_update_success[OF ou]
  have train: "rp_max_steps self \<noteq> 0
        \<and> length (rp_model self') = length (rp_model self)
        \<and> (\<forall>k<length (rp_model self).
              fst (rp_model self' ! k) = fst (rp_model self ! k)
            \<and> (\<exists>w1. map_of W1 (fst (rp_model self ! k)) = Some w1
                  \<and> length w1 = length (snd (rp_model self ! k))
                  \<and> length (snd (rp_model self' ! k)) = length (snd (rp_model self ! k))
                  \<and> (\<forall>i<length (snd (rp_model self ! k)).
                        snd (rp_model self' ! k) ! i
                          = snd (rp_model self ! k) ! i
                            + (w1 ! i - snd (rp_model self ! k) ! i) * ?L)))
        \<and> rp_outer_steps self' = rp_outer_steps self + 1" if t: "rp_training self"
  proof -
    from o t have m: "rp_max_steps self \<noteq> 0"
      and i: "interpolate (rp_model self) W1 ?L = Inr (rp_model self')"
      and s: "rp_outer_steps self' = rp_outer_steps self + 1"
      by simp_all
    from interpolate_elementwise[OF i] m s show ?thesis by blast
  qed
  have eval: "rp_model self' = rp_model self \<and> rp_outer_steps self' = rp_outer_steps self"
    if t: "\<not> rp_training self"
    using o t by simp
  show ?thesis
    using sp ft train eval by blast
qed

theorem Reptile_stored_parameters_witness:
  "Reptile_meta_learn plain_test_collaborators reptile_example [(0, 0), (1, 1)]
     = (reptile_example\<lparr>rp_model := [(''w'', [3 / 2, 5 / 2]), (''b'', [1 / 2])],
                        rp_optimizer := 1, rp_outer_steps := 2\<rparr>,
        Inr [(query_error, Loss 0), (query_accuracy, Accuracy 0)])
   \<and> Reptile_meta_learn plain_test_collaborators (reptile_example\<lparr>rp_training := False\<rparr>)
       [(0, 0), (1, 1)]
     = (reptile_example\<lparr>rp_training := False, rp_optimizer := 1\<rparr>,
        Inr [(query_error, Loss 0), (query_accuracy, Accuracy 0)])
   \<and> reptile_fast_train plain_test_collaborators 1 [0] [0] (0, [(''w'', [1, 2]), (''b'', [0])])
     = ((1, [(''w'', [2, 3]), (''b'', [1])]), Inr ())
   \<and> (\<exists>w1. map_of [(''w'', [2, 3 :: real]), (''b'', [1])] ''w'' = Some w1
          \<and> [3 / 2, 5 / 2 :: real] ! 1 = [1, 2] ! 1 + (w1 ! 1 - [1, 2] ! 1) * (1 * (1 - real 1 / real_of_int 2)))
   \<and> rp_model (reptile_example\<lparr>rp_training := False, rp_optimizer := 1\<rparr>)
     = rp_model (reptile_example\<lparr>rp_training := False\<rparr>)"
proof -
  let ?C = "plain_test_collaborators"
  let ?after = "reptile_example\<lparr>rp_model := [(''w'', [3 / 2, 5 / 2]), (''b'', [1 / 2])],
                        rp_optimizer := 1, rp_outer_steps := 2\<rparr>"
  let ?m = "[(query_error, Loss (0 :: nat)), (query_accuracy, Accuracy (0 :: nat))]"
  have h1: "Reptile_meta_learn ?C reptile_example [(0, 0), (1, 1)] = (?after, Inr ?m)"
    by (simp add: Reptile_meta_learn_def reptile_example_def plain_test_collaborators_def
        split_batch_def chunk2_def query_metrics_def test_loss_def Reptile_outer_update_def
        Let_def)
  have h2: "Reptile_meta_learn ?C (reptile_example\<lparr>rp_training := False\<rparr>) [(0, 0), (1, 1)]
     = (reptile_example\<lparr>rp_training := False, rp_optimizer := 1\<rparr>, Inr ?m)"
    by (simp add: Reptile_meta_learn_def reptile_example_def plain_test_collaborators_def
        split_batch_def chunk2_def query_metrics_def test_loss_def Reptile_outer_update_def
        Let_def)
  have ft: "reptile_fast_train ?C 1 [0] [0] (0, [(''w'', [1, 2]), (''b'', [0])])
     = ((1, [(''w'', [2, 3]), (''b'', [1])]), Inr ())"
    by (simp add: plain_test_collaborators_def test_loss_def)
  from Reptile_stored_parameters[OF h1]
  have c1: "\<exists>w1. map_of [(''w'', [2, 3 :: real]), (''b'', [1])] ''w'' = Some w1
          \<and> [3 / 2, 5 / 2 :: real] ! 1 = [1, 2] ! 1 + (w1 ! 1 - [1, 2] ! 1) * (1 * (1 - real 1 / real_of_int 2))"
    by simp
  from Reptile_stored_parameters[OF h2]
  have c2: "rp_model (reptile_example\<lparr>rp_training := False, rp_optimizer := 1\<rparr>)
     = rp_model (reptile_example\<lparr>rp_training := False\<rparr>)"
    by simp
  show ?thesis using h1 h2 ft c1 c2 by blast
qed

subsection \<open>The stored parameters after an abandoned step\<close>









end
